theory Spec2Isabelle
  imports Complex_Main "HOL-Library.Word" "HOL-Library.Multiset" "HOL-Library.Sublist"
begin

section \<open>JavaScript strings and JSON values\<close>

text \<open>
  A JavaScript string is a sequence of UTF-16 code units. \<open>js\<close> embeds an ASCII literal
  of the source text. \<open>String.prototype.trim\<close> removes, at both ends, the code units
  that ECMAScript classifies as WhiteSpace or LineTerminator; all of them lie in the
  basic plane, so the classification is per code unit.
\<close>

type_synonym jsstring = "16 word list"

definition js :: "string \<Rightarrow> jsstring" where
  "js s = map of_char s"

definition is_ws :: "16 word \<Rightarrow> bool" where
  "is_ws c \<longleftrightarrow>
     c \<in> {0x09, 0x0A, 0x0B, 0x0C, 0x0D, 0x20, 0xA0, 0x1680, 0x2028, 0x2029,
          0x202F, 0x205F, 0x3000, 0xFEFF} \<or> (0x2000 \<le> c \<and> c \<le> 0x200A)"

definition trim :: "jsstring \<Rightarrow> jsstring" where
  "trim s = rev (dropWhile is_ws (rev (dropWhile is_ws s)))"

text \<open>
  The values \<open>express.json()\<close> can put into \<open>req.body\<close>. A property that is absent
  reads as \<open>undefined\<close>, which is \<open>None\<close> below. The body itself is the map from its
  property names to their values.
\<close>

datatype jsval =
    JNull
  | JBool bool
  | JNum rat
  | JStr jsstring
  | JArr "jsval list"
  | JObj "(jsstring \<times> jsval) list"

type_synonym jsbody = "string \<rightharpoonup> jsval"

fun truthy :: "jsval option \<Rightarrow> bool" where
  "truthy None = False"
| "truthy (Some JNull) = False"
| "truthy (Some (JBool b)) = b"
| "truthy (Some (JNum n)) = (n \<noteq> 0)"
| "truthy (Some (JStr s)) = (s \<noteq> [])"
| "truthy (Some (JArr _)) = True"
| "truthy (Some (JObj _)) = True"

fun typeof :: "jsval option \<Rightarrow> string" where
  "typeof None = ''undefined''"
| "typeof (Some JNull) = ''object''"
| "typeof (Some (JBool _)) = ''boolean''"
| "typeof (Some (JNum _)) = ''number''"
| "typeof (Some (JStr _)) = ''string''"
| "typeof (Some (JArr _)) = ''object''"
| "typeof (Some (JObj _)) = ''object''"

text \<open>
  The string, or the boolean, that a value is once \<open>typeof\<close> has established it; the
  handlers read them only behind that test.
\<close>

fun as_string :: "jsval option \<Rightarrow> jsstring" where
  "as_string (Some (JStr s)) = s"
| "as_string _ = []"

fun as_boolean :: "jsval option \<Rightarrow> bool" where
  "as_boolean (Some (JBool b)) = b"
| "as_boolean _ = False"

section \<open>The todos table and the statements sent to it\<close>

text \<open>
  \<open>react-node/backend/src/config/db.js\<close> creates the table: \<open>id SERIAL PRIMARY KEY\<close>,
  \<open>title VARCHAR(255) NOT NULL\<close>, \<open>completed BOOLEAN DEFAULT FALSE\<close> and two timestamps
  defaulting to \<open>NOW()\<close>. A row holds the values the endpoints write; the table is the
  list of its rows.
\<close>

record todo =
  id_col :: int
  title :: jsstring
  completed :: bool
  created_at :: nat
  updated_at :: nat

type_synonym todos = "todo list"

text \<open>
  What PostgreSQL and the driver contribute to one request, and the source does not
  decide, is a parameter of the model:
  \<^item> \<open>reachable\<close>: whether \<open>pool.query\<close> reaches the server at all;
  \<^item> \<open>now\<close>: the value of \<open>NOW()\<close>;
  \<^item> \<open>nextval\<close>: the value the sequence behind \<open>SERIAL\<close> hands out;
  \<^item> \<open>int4_in\<close>: the conversion of a text parameter compared with \<open>id\<close> into an
    integer, \<open>None\<close> when the server rejects the text;
  \<^item> \<open>varchar_in\<close>: the text the \<open>title\<close> column stores for a text parameter,
    \<open>None\<close> when the server rejects it (too long for \<open>VARCHAR(255)\<close>, not encodable).
\<close>

record pgenv =
  reachable :: bool
  now :: nat
  nextval :: int
  int4_in :: "jsstring \<Rightarrow> int option"
  varchar_in :: "jsstring \<Rightarrow> jsstring option"

datatype pg_error =
    ConnectionError
  | InvalidInteger
  | ValueRejected
  | UniqueViolation

text \<open>
  The object \<open>pool.query\<close> resolves to: the rows the statement returns, and in
  \<open>rowCount\<close> the number of rows the server reports for the command, which is their
  number for every statement here.
\<close>

record result =
  rowCount :: nat
  rows :: "todo list"

text \<open>
  \<open>SELECT * FROM todos ORDER BY created_at DESC\<close>. SQL leaves the order of rows with
  equal \<open>created_at\<close> open; the model fixes one.
\<close>

definition select_all_desc :: "pgenv \<Rightarrow> todos \<Rightarrow> pg_error + result" where
  "select_all_desc e db =
     (if \<not> reachable e then Inl ConnectionError
      else let rs = rev (sort_key created_at db)
           in Inr \<lparr>rowCount = length rs, rows = rs\<rparr>)"

text \<open>\<open>INSERT INTO todos (title) VALUES ($1) RETURNING *\<close>.\<close>

definition insert_returning :: "pgenv \<Rightarrow> todos \<Rightarrow> jsstring \<Rightarrow> pg_error + (todos \<times> result)" where
  "insert_returning e db t =
     (if \<not> reachable e then Inl ConnectionError
      else case varchar_in e t of
        None \<Rightarrow> Inl ValueRejected
      | Some t' \<Rightarrow>
          if nextval e \<in> id_col ` set db then Inl UniqueViolation
          else let r = \<lparr>id_col = nextval e, title = t', completed = False,
                         created_at = now e, updated_at = now e\<rparr>
               in Inr (db @ [r], \<lparr>rowCount = 1, rows = [r]\<rparr>))"

text \<open>\<open>SELECT * FROM todos WHERE id = $1\<close>.\<close>

definition select_by_id :: "pgenv \<Rightarrow> todos \<Rightarrow> jsstring \<Rightarrow> pg_error + result" where
  "select_by_id e db i =
     (if \<not> reachable e then Inl ConnectionError
      else case int4_in e i of
        None \<Rightarrow> Inl InvalidInteger
      | Some n \<Rightarrow>
          let rs = filter (\<lambda>r. id_col r = n) db
          in Inr \<lparr>rowCount = length rs, rows = rs\<rparr>)"

text \<open>
  \<open>UPDATE todos SET ... WHERE id = $n RETURNING *\<close>. The handler assembles the
  \<open>SET\<close> clause from these assignments, in this order.
\<close>

datatype assignment =
    SetTitle jsstring
  | SetCompleted bool
  | SetUpdatedAtNow

fun coerce :: "pgenv \<Rightarrow> assignment \<Rightarrow> assignment option" where
  "coerce e (SetTitle t) = map_option SetTitle (varchar_in e t)"
| "coerce e (SetCompleted b) = Some (SetCompleted b)"
| "coerce e SetUpdatedAtNow = Some SetUpdatedAtNow"

fun assign :: "pgenv \<Rightarrow> assignment \<Rightarrow> todo \<Rightarrow> todo" where
  "assign e (SetTitle t) r = r\<lparr>title := t\<rparr>"
| "assign e (SetCompleted b) r = r\<lparr>completed := b\<rparr>"
| "assign e SetUpdatedAtNow r = r\<lparr>updated_at := now e\<rparr>"

definition update_returning ::
  "pgenv \<Rightarrow> todos \<Rightarrow> assignment list \<Rightarrow> jsstring \<Rightarrow> pg_error + (todos \<times> result)" where
  "update_returning e db set_clause i =
     (if \<not> reachable e then Inl ConnectionError
      else case those (map (coerce e) set_clause) of
        None \<Rightarrow> Inl ValueRejected
      | Some fs \<Rightarrow>
          (case int4_in e i of
             None \<Rightarrow> Inl InvalidInteger
           | Some n \<Rightarrow>
               let set_row = (\<lambda>r. fold (assign e) fs r);
                   db' = map (\<lambda>r. if id_col r = n then set_row r else r) db;
                   rs = map set_row (filter (\<lambda>r. id_col r = n) db)
               in Inr (db', \<lparr>rowCount = length rs, rows = rs\<rparr>)))"

text \<open>\<open>DELETE FROM todos WHERE id = $1\<close>.\<close>

definition delete_by_id :: "pgenv \<Rightarrow> todos \<Rightarrow> jsstring \<Rightarrow> pg_error + todos" where
  "delete_by_id e db i =
     (if \<not> reachable e then Inl ConnectionError
      else case int4_in e i of
        None \<Rightarrow> Inl InvalidInteger
      | Some n \<Rightarrow> Inr (filter (\<lambda>r. id_col r \<noteq> n) db))"

section \<open>The todo controller\<close>

text \<open>
  \<open>react-node/backend/src/controllers/todo.controller.js\<close>. A handler takes the table
  and the request and gives the table afterwards, the status and the JSON body. An
  error of \<open>pool.query\<close> goes to \<open>next(err)\<close>; the global handler of \<open>app.js\<close>
  answers it with \<open>err.status || err.statusCode || 500\<close>, and a driver error carries
  neither, so the status is 500.
\<close>

datatype ('r, 'e) body =
    Error jsstring
  | Message jsstring
  | Row 'r
  | Listing nat "'r list"
  | NoBody
  | Unhandled 'e

type_synonym response = "nat \<times> (todo, pg_error) body"

definition next_err :: "pg_error \<Rightarrow> response" where
  "next_err err = (500, Unhandled err)"

text \<open>\<open>result.rows[0]\<close>, which is \<open>undefined\<close> on an empty array.\<close>

definition first_row :: "result \<Rightarrow> (todo, pg_error) body" where
  "first_row r = (case rows r of [] \<Rightarrow> NoBody | x # _ \<Rightarrow> Row x)"

definition listTodos :: "pgenv \<Rightarrow> todos \<Rightarrow> todos \<times> response" where
  "listTodos e db =
     (case select_all_desc e db of
        Inl err \<Rightarrow> (db, next_err err)
      | Inr r \<Rightarrow> (db, (200, Listing (rowCount r) (rows r))))"

definition createTodo :: "pgenv \<Rightarrow> todos \<Rightarrow> jsbody \<Rightarrow> todos \<times> response" where
  "createTodo e db req_body =
     (let title = req_body ''title'' in
      if \<not> truthy title \<or> typeof title \<noteq> ''string'' \<or> trim (as_string title) = []
      then (db, (400, Error (js ''title is required and must be a non-empty string'')))
      else case insert_returning e db (trim (as_string title)) of
        Inl err \<Rightarrow> (db, next_err err)
      | Inr (db', r) \<Rightarrow> (db', (201, first_row r)))"

definition getTodo :: "pgenv \<Rightarrow> todos \<Rightarrow> jsstring \<Rightarrow> todos \<times> response" where
  "getTodo e db i =
     (case select_by_id e db i of
        Inl err \<Rightarrow> (db, next_err err)
      | Inr r \<Rightarrow>
          if rowCount r = 0
          then (db, (404, Error (js ''Todo with id '' @ i @ js '' not found'')))
          else (db, (200, first_row r)))"

definition updateTodo :: "pgenv \<Rightarrow> todos \<Rightarrow> jsstring \<Rightarrow> jsbody \<Rightarrow> todos \<times> response" where
  "updateTodo e db i req_body =
     (let title = req_body ''title''; completed = req_body ''completed'' in
      if title \<noteq> None \<and> (typeof title \<noteq> ''string'' \<or> trim (as_string title) = [])
      then (db, (400, Error (js ''title must be a non-empty string'')))
      else
        let fields1 = (if title \<noteq> None then [SetTitle (trim (as_string title))] else []) in
        if completed \<noteq> None \<and> typeof completed \<noteq> ''boolean''
        then (db, (400, Error (js ''completed must be a boolean'')))
        else
          let fields2 = fields1 @
                (if completed \<noteq> None then [SetCompleted (as_boolean completed)] else []) in
          if length fields2 = 0
          then (db, (400, Error
                  (js ''Provide at least one field to update: title or completed'')))
          else
            let fields3 = fields2 @ [SetUpdatedAtNow] in
            case update_returning e db fields3 i of
              Inl err \<Rightarrow> (db, next_err err)
            | Inr (db', r) \<Rightarrow>
                if rowCount r = 0
                then (db', (404, Error (js ''Todo with id '' @ i @ js '' not found'')))
                else (db', (200, first_row r)))"

definition deleteTodo :: "pgenv \<Rightarrow> todos \<Rightarrow> jsstring \<Rightarrow> todos \<times> response" where
  "deleteTodo e db i =
     (case delete_by_id e db i of
        Inl err \<Rightarrow> (db, next_err err)
      | Inr db' \<Rightarrow> (db', (200, Message (js ''Todo deleted''))))"

text \<open>
  The five routes of \<open>todo.routes.js\<close>, and a run of requests, each with what the
  server contributes to it, from a given table.
\<close>

datatype request =
    ListTodos
  | CreateTodo jsbody
  | GetTodo jsstring
  | UpdateTodo jsstring jsbody
  | DeleteTodo jsstring

fun handle :: "pgenv \<Rightarrow> todos \<Rightarrow> request \<Rightarrow> todos \<times> response" where
  "handle e db ListTodos = listTodos e db"
| "handle e db (CreateTodo req_body) = createTodo e db req_body"
| "handle e db (GetTodo i) = getTodo e db i"
| "handle e db (UpdateTodo i req_body) = updateTodo e db i req_body"
| "handle e db (DeleteTodo i) = deleteTodo e db i"

fun run :: "todos \<Rightarrow> (pgenv \<times> request) list \<Rightarrow> todos" where
  "run db [] = db"
| "run db ((e, rq) # rest) = run (fst (handle e db rq)) rest"

text \<open>A string with whitespace at its start or at its end.\<close>

definition edge_ws :: "jsstring \<Rightarrow> bool" where
  "edge_ws s \<longleftrightarrow> s \<noteq> [] \<and> (is_ws (hd s) \<or> is_ws (last s))"

text \<open>
  The column stores a text without whitespace at its ends as a text without
  whitespace at its ends.
\<close>

definition keeps_edges :: "pgenv \<Rightarrow> bool" where
  "keeps_edges e \<longleftrightarrow> (\<forall>s t. varchar_in e s = Some t \<longrightarrow> \<not> edge_ws s \<longrightarrow> \<not> edge_ws t)"

text \<open>
  An environment for the examples: the server is reachable, reads an id written in
  decimal digits, and stores every title as it is sent.
\<close>

definition digit_val :: "16 word \<Rightarrow> nat option" where
  "digit_val c = (if 0x30 \<le> c \<and> c \<le> 0x39 then Some (unat c - 48) else None)"

definition decimal_int4 :: "jsstring \<Rightarrow> int option" where
  "decimal_int4 s =
     (if s = [] then None
      else case those (map digit_val s) of
        None \<Rightarrow> None
      | Some ds \<Rightarrow>
          let n = foldl (\<lambda>a d. 10 * a + d) 0 ds
          in if n \<le> 2147483647 then Some (int n) else None)"

definition pg_up :: "nat \<Rightarrow> int \<Rightarrow> pgenv" where
  "pg_up t n =
     \<lparr>reachable = True, now = t, nextval = n, int4_in = decimal_int4, varchar_in = Some\<rparr>"

definition milk :: todo where
  "milk = \<lparr>id_col = 1, title = js ''milk'', completed = False, created_at = 5, updated_at = 5\<rparr>"

definition eggs :: todo where
  "eggs = \<lparr>id_col = 2, title = js ''eggs'', completed = True, created_at = 7, updated_at = 9\<rparr>"

section \<open>The products API on MongoDB\<close>

text \<open>
  The schema of \<open>product.model.js\<close> (\<open>src/unnamed/part_022\<close>): \<open>name\<close>, \<open>description\<close>, \<open>price\<close>,
  \<open>category\<close>, \<open>inStock\<close>, and the two timestamps of \<open>timestamps: true\<close>. The collection
  is the list of its documents; \<open>_id\<close> is a 12-byte ObjectId.
\<close>

type_synonym objectid = "96 word"

record product =
  oid :: objectid
  name :: jsstring
  description :: jsstring
  price :: rat
  category :: jsstring
  inStock :: bool
  createdAt :: nat
  updatedAt :: nat

type_synonym products = "product list"

text \<open>
  What Mongoose and the server contribute to one request:
  \<^item> \<open>connected\<close>: whether the operation reaches MongoDB;
  \<^item> \<open>clock\<close>: the time Mongoose writes into \<open>updatedAt\<close>;
  \<^item> \<open>objectid_cast\<close>: the cast of a route parameter to an ObjectId (\<open>None\<close> is a
    \<open>CastError\<close>);
  \<^item> \<open>cast_filter\<close>: what Mongoose makes of a value of the \<open>category\<close> filter that is
    not a string, which is the error of the cast or the condition on the category that
    the query then selects by (\<open>$in\<close> for an array, the operators an object names);
  \<^item> \<open>cast_update\<close>: what the schema makes of the body of an update, which is the
    error of its casts and validators or the change the update applies to a document.
\<close>

datatype mongoose_error = CastError | ValidationError jsstring | MongoError

record mongoenv =
  connected :: bool
  clock :: nat
  objectid_cast :: "jsstring \<Rightarrow> objectid option"
  cast_filter :: "jsval \<Rightarrow> mongoose_error + (jsstring \<Rightarrow> bool)"
  cast_update :: "jsval \<Rightarrow> mongoose_error + (product \<Rightarrow> product)"

text \<open>
  \<open>Product.find(filter)\<close>, for the filters \<open>listProducts\<close> builds: \<open>{}\<close> and
  \<open>{category: v}\<close>. Mongoose casts a string \<open>v\<close> through the string setters of the
  schema path, and \<open>category\<close> declares \<open>trim: true\<close>; the query then selects the
  documents whose category is the trimmed string. A value that is not a string is a
  condition of its own, which \<open>cast_filter\<close> reads.
\<close>

definition find :: "mongoenv \<Rightarrow> products \<Rightarrow> jsval option \<Rightarrow> mongoose_error + products" where
  "find e db filter_category =
     (if \<not> connected e then Inl MongoError
      else case filter_category of
        None \<Rightarrow> Inr db
      | Some (JStr v) \<Rightarrow> Inr (filter (\<lambda>p. category p = trim v) db)
      | Some v \<Rightarrow>
          (case cast_filter e v of
             Inl err \<Rightarrow> Inl err
           | Inr selects \<Rightarrow> Inr (filter (\<lambda>p. selects (category p)) db)))"

text \<open>
  \<open>req.query.category\<close> is what the query parser of Express makes of the query string:
  absent, a string (\<open>?category=books\<close>, \<open>?category=\<close>), an array when the parameter is
  repeated (\<open>?category=books&category=food\<close>) or an object when it is written with
  brackets (\<open>?category[$ne]=books\<close>). \<open>if (req.query.category)\<close> tests it, and the
  handler copies a value that passes into the filter as it is.
\<close>

definition listProducts ::
  "mongoenv \<Rightarrow> products \<Rightarrow> jsval option \<Rightarrow> products \<times> nat \<times> (product, unit) body" where
  "listProducts e db query_category =
     (let filter_category = (if truthy query_category then query_category else None)
      in case find e db filter_category of
        Inl err \<Rightarrow> (db, (500, Error (js ''Server error while fetching products'')))
      | Inr ps \<Rightarrow> (db, (200, Listing (length ps) ps)))"

text \<open>
  \<open>Product.findByIdAndDelete(id)\<close>: removes the document with that \<open>_id\<close> and returns
  it, or returns \<open>null\<close>.
\<close>

definition findByIdAndDelete ::
  "mongoenv \<Rightarrow> products \<Rightarrow> jsstring \<Rightarrow> mongoose_error + (products \<times> product option)" where
  "findByIdAndDelete e db i =
     (case objectid_cast e i of
        None \<Rightarrow> Inl CastError
      | Some k \<Rightarrow>
          if \<not> connected e then Inl MongoError
          else (case List.find (\<lambda>p. oid p = k) db of
                  None \<Rightarrow> Inr (db, None)
                | Some p \<Rightarrow> Inr (remove1 p db, Some p)))"

text \<open>\<open>err.name\<close>.\<close>

fun name_of :: "mongoose_error \<Rightarrow> string" where
  "name_of CastError = ''CastError''"
| "name_of (ValidationError msg) = ''ValidationError''"
| "name_of MongoError = ''MongoError''"

text \<open>\<open>err.message\<close>, modelled for the validation error only.\<close>

fun message_of :: "mongoose_error \<Rightarrow> jsstring" where
  "message_of (ValidationError msg) = msg"
| "message_of _ = []"

definition isCastError :: "mongoose_error \<Rightarrow> bool" where
  "isCastError err \<longleftrightarrow> name_of err = ''CastError''"

definition deleteProduct ::
  "mongoenv \<Rightarrow> products \<Rightarrow> jsstring \<Rightarrow> products \<times> nat \<times> (product, unit) body" where
  "deleteProduct e db i =
     (case findByIdAndDelete e db i of
        Inl err \<Rightarrow>
          if isCastError err then (db, (400, Error (js ''Invalid product ID format'')))
          else (db, (500, Error (js ''Server error while deleting product'')))
      | Inr (db', product) \<Rightarrow>
          if product = None then (db', (404, Error (js ''Product not found'')))
          else (db', (200, Message (js ''Product deleted''))))"

text \<open>\<open>Product.findById(id)\<close>.\<close>

definition findById ::
  "mongoenv \<Rightarrow> products \<Rightarrow> jsstring \<Rightarrow> mongoose_error + product option" where
  "findById e db i =
     (case objectid_cast e i of
        None \<Rightarrow> Inl CastError
      | Some k \<Rightarrow>
          if \<not> connected e then Inl MongoError
          else Inr (List.find (\<lambda>p. oid p = k) db))"

definition getProduct ::
  "mongoenv \<Rightarrow> products \<Rightarrow> jsstring \<Rightarrow> products \<times> nat \<times> (product, unit) body" where
  "getProduct e db i =
     (case findById e db i of
        Inl err \<Rightarrow>
          if isCastError err then (db, (400, Error (js ''Invalid product ID format'')))
          else (db, (500, Error (js ''Server error while fetching product'')))
      | Inr product \<Rightarrow>
          (case product of
             None \<Rightarrow> (db, (404, Error (js ''Product not found'')))
           | Some p \<Rightarrow> (db, (200, Row p))))"

text \<open>
  \<open>Product.findByIdAndUpdate(id, req.body, {new: true, runValidators: true})\<close>:
  changes the first document with that \<open>_id\<close> and returns it as changed, or returns
  \<open>null\<close>. \<open>req.body\<close> is what \<open>express.json()\<close> parsed, an object or an array, and
  the handler passes it on as it is.

  Mongoose reads an update that is an array as an update pipeline: it hands the stages
  to MongoDB as they are, after appending the stage that sets \<open>updatedAt\<close>, and the
  casts, setters and validators of the schema, which it applies to an update that is an
  object, are not applied to them. The pipelines modelled here are those whose stages
  each are \<open>{$set: {name: s}}\<close> with a string \<open>s\<close> that MongoDB reads as a literal
  (one that does not begin with \<open>$\<close>); what any other body does is \<open>cast_update\<close>'s to
  say.
\<close>

fun change_first :: "('a \<Rightarrow> bool) \<Rightarrow> ('a \<Rightarrow> 'a) \<Rightarrow> 'a list \<Rightarrow> 'a list" where
  "change_first P f [] = []"
| "change_first P f (x # xs) = (if P x then f x # xs else x # change_first P f xs)"

definition set_name_stage :: "jsval \<Rightarrow> jsstring option" where
  "set_name_stage stage =
     (case stage of
        JObj [(operator, JObj [(field, JStr s)])] \<Rightarrow>
          if operator = js ''$set'' \<and> field = js ''name'' \<and> take 1 s \<noteq> js ''$'' then Some s
          else None
      | _ \<Rightarrow> None)"

definition update_pipeline :: "mongoenv \<Rightarrow> jsval list \<Rightarrow> (product \<Rightarrow> product) option" where
  "update_pipeline e stages =
     (if stages = [] then None
      else map_option
             (\<lambda>names p. (fold (\<lambda>s p. p\<lparr>name := s\<rparr>) names p)\<lparr>updatedAt := clock e\<rparr>)
             (those (map set_name_stage stages)))"

definition update_of :: "mongoenv \<Rightarrow> jsval \<Rightarrow> mongoose_error + (product \<Rightarrow> product)" where
  "update_of e req_body =
     (case req_body of
        JArr stages \<Rightarrow>
          (case update_pipeline e stages of
             Some change \<Rightarrow> Inr change
           | None \<Rightarrow> cast_update e req_body)
      | _ \<Rightarrow> cast_update e req_body)"

definition findByIdAndUpdate ::
  "mongoenv \<Rightarrow> products \<Rightarrow> jsstring \<Rightarrow> jsval \<Rightarrow>
     mongoose_error + (products \<times> product option)" where
  "findByIdAndUpdate e db i req_body =
     (case objectid_cast e i of
        None \<Rightarrow> Inl CastError
      | Some k \<Rightarrow>
          (case update_of e req_body of
             Inl err \<Rightarrow> Inl err
           | Inr change \<Rightarrow>
               if \<not> connected e then Inl MongoError
               else (case List.find (\<lambda>p. oid p = k) db of
                       None \<Rightarrow> Inr (db, None)
                     | Some p \<Rightarrow>
                         Inr (change_first (\<lambda>p. oid p = k) change db, Some (change p)))))"

definition updateProduct ::
  "mongoenv \<Rightarrow> products \<Rightarrow> jsstring \<Rightarrow> jsval \<Rightarrow>
     products \<times> nat \<times> (product, unit) body" where
  "updateProduct e db i req_body =
     (case findByIdAndUpdate e db i req_body of
        Inl err \<Rightarrow>
          if isCastError err then (db, (400, Error (js ''Invalid product ID format'')))
          else if name_of err = ''ValidationError'' then (db, (400, Error (message_of err)))
          else (db, (500, Error (js ''Server error while updating product'')))
      | Inr (db', product) \<Rightarrow>
          (case product of
             None \<Rightarrow> (db', (404, Error (js ''Product not found'')))
           | Some p \<Rightarrow> (db', (200, Row p))))"

text \<open>
  An environment for the examples: MongoDB is connected, the clock shows 7, an id of
  24 hexadecimal digits casts to the ObjectId it writes, a filter value that is an
  array of strings selects the categories among them and the object \<open>{$ne: s}\<close> those
  other than \<open>s\<close>, and the body of an update is read as setting the stock flag when it
  is an object with a boolean \<open>inStock\<close>.
\<close>

definition hex_val :: "16 word \<Rightarrow> nat option" where
  "hex_val c =
     (if 0x30 \<le> c \<and> c \<le> 0x39 then Some (unat c - 48)
      else if 0x61 \<le> c \<and> c \<le> 0x66 then Some (unat c - 87)
      else if 0x41 \<le> c \<and> c \<le> 0x46 then Some (unat c - 55)
      else None)"

definition hex_objectid :: "jsstring \<Rightarrow> objectid option" where
  "hex_objectid s =
     (if length s \<noteq> 24 then None
      else map_option (\<lambda>ds. of_nat (foldl (\<lambda>a d. 16 * a + d) 0 ds)) (those (map hex_val s)))"

fun string_of :: "jsval \<Rightarrow> jsstring option" where
  "string_of (JStr s) = Some s"
| "string_of _ = None"

definition in_or_ne :: "jsval \<Rightarrow> mongoose_error + (jsstring \<Rightarrow> bool)" where
  "in_or_ne v =
     (case v of
        JArr vs \<Rightarrow>
          (case those (map string_of vs) of
             Some ss \<Rightarrow> Inr (\<lambda>c. c \<in> set (map trim ss))
           | None \<Rightarrow> Inl CastError)
      | JObj [(operator, JStr s)] \<Rightarrow>
          if operator = js ''$ne'' then Inr (\<lambda>c. c \<noteq> trim s) else Inl CastError
      | _ \<Rightarrow> Inl CastError)"

definition stock_update :: "jsval \<Rightarrow> mongoose_error + (product \<Rightarrow> product)" where
  "stock_update req_body =
     (case req_body of
        JObj properties \<Rightarrow>
          (case map_of properties (js ''inStock'') of
             Some (JBool b) \<Rightarrow> Inr (\<lambda>p. p\<lparr>inStock := b\<rparr>)
           | Some v \<Rightarrow> Inl CastError
           | None \<Rightarrow> Inr (\<lambda>p. p))
      | _ \<Rightarrow> Inl MongoError)"

definition mongo_up :: mongoenv where
  "mongo_up = \<lparr>connected = True, clock = 7, objectid_cast = hex_objectid,
               cast_filter = in_or_ne, cast_update = stock_update\<rparr>"

definition novel :: product where
  "novel = \<lparr>oid = 0x10, name = js ''Novel'', description = [], price = 12,
            category = js ''books'', inStock = True, createdAt = 3, updatedAt = 3\<rparr>"

definition bread :: product where
  "bread = \<lparr>oid = 0x11, name = js ''Bread'', description = [], price = 2,
            category = js ''food'', inStock = True, createdAt = 4, updatedAt = 4\<rparr>"

section \<open>The item list of the inventory API\<close>

text \<open>
  \<open>ItemController.listItems\<close> of the Spring Boot project, with the \<open>Item\<close> entity
  and the two repository queries it reaches through \<open>ItemService\<close>. Java strings
  are sequences of UTF-16 code units, too; \<open>null\<close> is \<open>None\<close>.
\<close>

type_synonym java_string = "16 word list"

record item =
  item_id :: int
  item_name :: java_string
  item_description :: "java_string option"
  item_price :: "rat option"
  quantity :: "int option"
  warehouse :: "java_string option"
  available :: bool
  item_createdAt :: nat
  item_updatedAt :: nat

text \<open>
  \<open>String.isBlank\<close>: the string is empty or holds only code points for which
  \<open>Character.isWhitespace\<close> is true, which are the Unicode space, line and paragraph
  separators other than the non-breaking spaces, and the controls HT, LF, VT, FF, CR,
  FS, GS, RS and US.
\<close>

definition isWhitespace :: "16 word \<Rightarrow> bool" where
  "isWhitespace c \<longleftrightarrow>
     (0x09 \<le> c \<and> c \<le> 0x0D) \<or> (0x1C \<le> c \<and> c \<le> 0x20) \<or> c = 0x1680 \<or>
     (0x2000 \<le> c \<and> c \<le> 0x2006) \<or> (0x2008 \<le> c \<and> c \<le> 0x200A) \<or>
     c \<in> {0x2028, 0x2029, 0x205F, 0x3000}"

definition isBlank :: "java_string \<Rightarrow> bool" where
  "isBlank s \<longleftrightarrow> list_all isWhitespace s"

text \<open>
  \<open>findAll\<close> and the derived query \<open>findByWarehouse\<close>, which selects the rows whose
  \<open>warehouse\<close> column equals the argument. A failure of the data source is an
  exception.
\<close>

datatype data_access_exception = DataAccessException

definition findAll :: "bool \<Rightarrow> item list \<Rightarrow> data_access_exception + item list" where
  "findAll up db = (if \<not> up then Inl DataAccessException else Inr db)"

definition findByWarehouse ::
  "bool \<Rightarrow> item list \<Rightarrow> java_string \<Rightarrow> data_access_exception + item list" where
  "findByWarehouse up db w =
     (if \<not> up then Inl DataAccessException
      else Inr (filter (\<lambda>i. warehouse i = Some w) db))"

text \<open>
  The controller method; an exception leaves it for \<open>GlobalExceptionHandler\<close>, and
  \<open>ResponseEntity.ok\<close> is the status 200 with the list.
\<close>

definition listItems ::
  "bool \<Rightarrow> item list \<Rightarrow> java_string option \<Rightarrow> data_access_exception + nat \<times> item list" where
  "listItems up db w =
     (case (case w of
              None \<Rightarrow> findAll up db
            | Some v \<Rightarrow> if \<not> isBlank v then findByWarehouse up db v else findAll up db) of
        Inl ex \<Rightarrow> Inl ex
      | Inr items \<Rightarrow> Inr (200, items))"

definition bolt :: item where
  "bolt = \<lparr>item_id = 1, item_name = js ''bolt'', item_description = None,
           item_price = Some 2, quantity = Some 40, warehouse = Some (js ''A''),
           available = True, item_createdAt = 1, item_updatedAt = 1\<rparr>"

section \<open>The validation handler of the inventory API\<close>

text \<open>
  \<open>GlobalExceptionHandler.handleValidation\<close> (\<open>src/unnamed/part_004\<close>). The
  exception carries the field errors of the
  binding result, in their order; a field error has a field name and a default
  message that may be \<open>null\<close>.
\<close>

record field_error =
  getField :: java_string
  getDefaultMessage :: "java_string option"

text \<open>
  \<open>Collectors.toMap(key, value, (first, second) -> first)\<close>: the elements are merged
  into the map one by one, and a key that is present keeps its value.
\<close>

definition merge_first :: "('k \<rightharpoonup> 'v) \<Rightarrow> 'k \<Rightarrow> 'v \<Rightarrow> ('k \<rightharpoonup> 'v)" where
  "merge_first m k v = (case m k of None \<Rightarrow> m(k \<mapsto> v) | Some first \<Rightarrow> m(k \<mapsto> first))"

definition toMap :: "('a \<Rightarrow> 'k) \<Rightarrow> ('a \<Rightarrow> 'v) \<Rightarrow> 'a list \<Rightarrow> ('k \<rightharpoonup> 'v)" where
  "toMap key val xs = foldl (\<lambda>m x. merge_first m (key x) (val x)) Map.empty xs"

text \<open>
  The body is a \<open>LinkedHashMap\<close> with the keys \<open>timestamp\<close>, \<open>status\<close>, \<open>error\<close>,
  \<open>message\<close> when there is a detail, and \<open>fieldErrors\<close> when the handler puts it.
\<close>

record error_body =
  timestamp :: string
  status :: nat
  error :: java_string
  message :: "java_string option"
  fieldErrors :: "(java_string \<rightharpoonup> java_string) option"

definition buildErrorBody ::
  "nat \<Rightarrow> java_string \<Rightarrow> java_string option \<Rightarrow> string \<Rightarrow> error_body" where
  "buildErrorBody st err detail local_now =
     \<lparr>timestamp = local_now, status = st, error = err, message = detail, fieldErrors = None\<rparr>"

definition handleValidation :: "field_error list \<Rightarrow> string \<Rightarrow> nat \<times> error_body" where
  "handleValidation errs local_now =
     (let field_errors =
            toMap getField
              (\<lambda>fe. case getDefaultMessage fe of Some msg \<Rightarrow> msg | None \<Rightarrow> js ''Invalid value'')
              errs;
          body = buildErrorBody 400 (js ''Validation failed'')
                   (Some (js ''One or more fields have invalid values'')) local_now
      in (400, body\<lparr>fieldErrors := Some field_errors\<rparr>))"

text \<open>A field error for the examples.\<close>

definition name_blank :: field_error where
  "name_blank = \<lparr>getField = js ''name'', getDefaultMessage = Some (js ''Item name must not be blank'')\<rparr>"

section \<open>The health route of the products API\<close>

text \<open>
  \<open>express-mongo/src/routes/health.routes.js\<close>. The handler reads
  \<open>mongoose.connection.readyState\<close> and the clock; the body is the object it passes
  to \<open>res.json\<close>, key by key.
\<close>

definition health :: "nat \<Rightarrow> string \<Rightarrow> nat \<times> (string \<times> string) list" where
  "health readyState iso_now =
     (let isDbConnected = (readyState = 1) in
      if \<not> isDbConnected
      then (500, [(''status'', ''error''), (''database'', ''unavailable''),
                  (''timestamp'', iso_now)])
      else (200, [(''status'', ''ok''), (''database'', ''ok''), (''timestamp'', iso_now)]))"

section \<open>The router of the plain PHP project\<close>

text \<open>
  \<open>php-mysql/src/Router.php\<close>. PHP strings are byte strings. \<open>addRoute\<close> turns each
  \<open>{name}\<close> of a path into the named group \<open>(?P<name>[^/]+)\<close> and leaves every other
  byte in the pattern as it is; the pattern is kept here in parsed form, a byte or a
  named group per token, between the anchors \<open>^\<close> and \<open>$\<close>.
\<close>

datatype token = PChar char | PGroup string

text \<open>\<open>\w\<close>: an ASCII letter, a digit or the underscore.\<close>

definition word_char :: "char \<Rightarrow> bool" where
  "word_char c \<longleftrightarrow>
     c \<in> set ''abcdefghijklmnopqrstuvwxyzABCDEFGHIJKLMNOPQRSTUVWXYZ0123456789_''"

text \<open>
  \<open>preg_replace('/\{(\w+)\}/', '(?P<$1>[^/]+)', $path)\<close>: scanning from the left, a
  brace that is followed by one or more word characters and a closing brace becomes a
  group; any other byte is copied.
\<close>

function preg_replace_groups :: "string \<Rightarrow> token list" where
  "preg_replace_groups [] = []"
| "preg_replace_groups (c # cs) =
     (if c = CHR ''{'' \<and> takeWhile word_char cs \<noteq> [] \<and>
         dropWhile word_char cs \<noteq> [] \<and> hd (dropWhile word_char cs) = CHR ''}''
      then PGroup (takeWhile word_char cs) # preg_replace_groups (tl (dropWhile word_char cs))
      else PChar c # preg_replace_groups cs)"
  by pat_completeness auto
termination
proof (relation "measure length")
  fix c :: char and cs :: string
  have "length (tl (dropWhile word_char cs)) \<le> length (dropWhile word_char cs)"
    by simp
  also have "\<dots> \<le> length cs"
    by (rule length_dropWhile_le)
  finally show "(tl (dropWhile word_char cs), c # cs) \<in> measure length"
    by simp
qed simp_all

definition strtoupper :: "string \<Rightarrow> string" where
  "strtoupper s =
     map (\<lambda>c. case map_of (zip ''abcdefghijklmnopqrstuvwxyz'' ''ABCDEFGHIJKLMNOPQRSTUVWXYZ'') c of
                Some u \<Rightarrow> u
              | None \<Rightarrow> c) s"

record route =
  http_method :: string
  pattern :: "token list"
  handler :: "string \<times> string"

definition addRoute :: "string \<Rightarrow> string \<Rightarrow> string \<times> string \<Rightarrow> route list \<Rightarrow> route list" where
  "addRoute m path h routes =
     routes @ [\<lparr>http_method = strtoupper m, pattern = preg_replace_groups path, handler = h\<rparr>]"

text \<open>
  \<open>preg_match\<close> is modelled on the patterns in which every copied byte stands for
  itself and every group name is one PCRE accepts: no copied byte is a metacharacter
  of PCRE, the delimiter \<open>#\<close> or NUL, a name does not start with a digit, has at most 32
  bytes and occurs once. On any other pattern the model does not say what PHP does.
  The limits PCRE puts on the length of a search are not modelled.
\<close>

definition pcre_special :: "char \<Rightarrow> bool" where
  "pcre_special c \<longleftrightarrow> c \<in> set (CHR 0x00 # CHR 0x5C # ''^$.[|()?*+{#'')"

fun group_names :: "token list \<Rightarrow> string list" where
  "group_names [] = []"
| "group_names (PChar c # ps) = group_names ps"
| "group_names (PGroup n # ps) = n # group_names ps"

fun copied :: "token list \<Rightarrow> string" where
  "copied [] = []"
| "copied (PChar c # ps) = c # copied ps"
| "copied (PGroup n # ps) = copied ps"

definition name_ok :: "string \<Rightarrow> bool" where
  "name_ok n \<longleftrightarrow> n \<noteq> [] \<and> length n \<le> 32 \<and> hd n \<notin> set ''0123456789''"

definition modelled :: "token list \<Rightarrow> bool" where
  "modelled ps \<longleftrightarrow>
     list_all (\<lambda>c. \<not> pcre_special c) (copied ps) \<and>
     list_all name_ok (group_names ps) \<and> distinct (group_names ps)"

text \<open>
  The search PCRE makes: a byte must be the next byte of the subject; a group takes
  the longest run without a slash first and gives bytes back one at a time until the
  rest of the pattern matches; \<open>$\<close> holds at the end of the subject and before a
  newline that ends it. The result is the named captures, in the order of the groups.
\<close>

fun first_some :: "'a option list \<Rightarrow> 'a option" where
  "first_some [] = None"
| "first_some (None # xs) = first_some xs"
| "first_some (Some x # xs) = Some x"

fun pmatch :: "token list \<Rightarrow> string \<Rightarrow> (string \<times> string) list option" where
  "pmatch [] s = (if s = [] \<or> s = [CHR 0x0A] then Some [] else None)"
| "pmatch (PChar c # ps) s =
     (case s of [] \<Rightarrow> None | d # ds \<Rightarrow> if d = c then pmatch ps ds else None)"
| "pmatch (PGroup n # ps) s =
     (let longest = length (takeWhile (\<lambda>c. c \<noteq> CHR ''/'') s)
      in first_some
           (map (\<lambda>k. map_option (\<lambda>caps. (n, take k s) # caps) (pmatch ps (drop k s)))
                (rev [1..<Suc longest])))"

datatype matched = Match "(string \<times> string) list" | NoMatch | Unmodelled

definition preg_match :: "token list \<Rightarrow> string \<Rightarrow> matched" where
  "preg_match ps subject =
     (if \<not> modelled ps then Unmodelled
      else case pmatch ps subject of None \<Rightarrow> NoMatch | Some caps \<Rightarrow> Match caps)"

text \<open>
  \<open>dispatch\<close>. \<open>$_POST['_method']\<close> is absent, a string or an array; \<open>strtoupper\<close> of
  an array is a \<open>TypeError\<close> under \<open>strict_types\<close>. A matching route ends the loop with
  the call \<open>$controller->$action($params)\<close>; falling out of the loop answers 404 with
  the array given to \<open>json_encode\<close>.
\<close>

datatype post_value = PString string | PArray

datatype outcome =
    Invoked "string \<times> string" "(string \<times> string) list"
  | Responded nat "(string \<times> string) list"
  | TypeError
  | OutsideModel

fun routes_loop :: "route list \<Rightarrow> string \<Rightarrow> string \<Rightarrow> outcome option" where
  "routes_loop [] m uri = None"
| "routes_loop (r # rs) m uri =
     (if http_method r \<noteq> strtoupper m then routes_loop rs m uri
      else case preg_match (pattern r) uri of
        Match matches \<Rightarrow> Some (Invoked (handler r) matches)
      | NoMatch \<Rightarrow> routes_loop rs m uri
      | Unmodelled \<Rightarrow> Some OutsideModel)"

definition method_override :: "string \<Rightarrow> post_value option \<Rightarrow> string option" where
  "method_override m post_method =
     (if m = ''POST'' \<and> post_method \<noteq> None
      then (case post_method of Some (PString v) \<Rightarrow> Some (strtoupper v) | _ \<Rightarrow> None)
      else Some m)"

definition dispatch :: "route list \<Rightarrow> post_value option \<Rightarrow> string \<Rightarrow> string \<Rightarrow> outcome" where
  "dispatch routes post_method m uri =
     (case method_override m post_method of
        None \<Rightarrow> TypeError
      | Some m' \<Rightarrow>
          (case routes_loop routes m' uri of
             Some out \<Rightarrow> out
           | None \<Rightarrow> Responded 404 [(''error'', ''Route not found''), (''path'', uri)]))"

text \<open>
  The reading of a pattern the router is meant to implement: a copied byte matches
  itself, a group matches a non-empty run of bytes without a slash and captures it,
  and the pattern as a whole covers the whole subject.
\<close>

inductive covers :: "token list \<Rightarrow> string \<Rightarrow> (string \<times> string) list \<Rightarrow> bool" where
  covers_end: "covers [] [] []"
| covers_char: "covers ps s caps \<Longrightarrow> covers (PChar c # ps) (c # s) caps"
| covers_group:
    "v \<noteq> [] \<Longrightarrow> CHR ''/'' \<notin> set v \<Longrightarrow> covers ps s caps \<Longrightarrow>
     covers (PGroup n # ps) (v @ s) ((n, v) # caps)"

text \<open>
  The routes after the registrations \<open>regs\<close>, each a method, a path and a handler,
  made in that order on a new router.
\<close>

definition register :: "(string \<times> string \<times> string \<times> string) list \<Rightarrow> route list" where
  "register regs = foldl (\<lambda>routes (m, path, h). addRoute m path h routes) [] regs"


text \<open>
  A route answers a method and a subject when its method is the method in upper
  case and its pattern covers the subject.
\<close>

definition answers :: "route \<Rightarrow> string \<Rightarrow> string \<Rightarrow> bool" where
  "answers r m uri \<longleftrightarrow>
     http_method r = strtoupper m \<and> (\<exists>caps. covers (pattern r) uri caps)"

section \<open>The router as the claim reads it\<close>
















section \<open>Trimming\<close>

lemma last_dropWhile: "dropWhile P xs \<noteq> [] \<Longrightarrow> last (dropWhile P xs) = last xs"
proof -
  assume ne: "dropWhile P xs \<noteq> []"
  have "last xs = last (takeWhile P xs @ dropWhile P xs)" by simp
  also have "\<dots> = last (dropWhile P xs)" using ne by (rule last_appendR)
  finally show ?thesis by simp
qed

lemma trim_no_edge: "\<not> edge_ws (trim s)"
proof -
  let ?a = "dropWhile is_ws s"
  let ?b = "dropWhile is_ws (rev ?a)"
  have t: "trim s = rev ?b" by (simp add: trim_def)
  show ?thesis
  proof (cases "?b = []")
    case True
    then show ?thesis by (simp add: t edge_ws_def)
  next
    case False
    then have hb: "\<not> is_ws (hd ?b)" by (rule hd_dropWhile)
    have a_ne: "?a \<noteq> []"
    proof
      assume e: "?a = []"
      have "?b = dropWhile is_ws (rev [])" by (simp only: e)
      then have "?b = []" by (simp only: rev.simps dropWhile.simps)
      with False show False by (simp only:)
    qed
    then have ha: "\<not> is_ws (hd ?a)" by (rule hd_dropWhile)
    have l: "last (rev ?b) = hd ?b" using False by (simp add: last_rev)
    have "last ?b = last (rev ?a)" using False by (rule last_dropWhile)
    then have h: "hd (rev ?b) = hd ?a" using False a_ne by (simp add: hd_rev last_rev)
    show ?thesis using ha hb l h by (simp add: t edge_ws_def)
  qed
qed

lemma dropWhile_unchanged: "xs = [] \<or> \<not> P (hd xs) \<Longrightarrow> dropWhile P xs = xs"
  by (cases xs) auto

lemma trim_idem: "\<not> edge_ws s \<Longrightarrow> trim s = s"
proof (cases "s = []")
  case True
  then show ?thesis by (simp add: trim_def)
next
  case False
  assume "\<not> edge_ws s"
  with False have h: "\<not> is_ws (hd s)" and l: "\<not> is_ws (last s)"
    by (simp_all add: edge_ws_def)
  have 1: "dropWhile is_ws s = s" using h by (simp add: dropWhile_unchanged)
  have "hd (rev s) = last s" using False by (simp add: hd_rev)
  then have 2: "dropWhile is_ws (rev s) = rev s" using l by (simp add: dropWhile_unchanged)
  show ?thesis by (simp add: trim_def 1 2)
qed

section \<open>Rows by id\<close>

lemma filter_other_id:
  "filter (\<lambda>r. id_col r = n) (filter (\<lambda>r. id_col r \<noteq> n) db) = []"
  by (induction db) auto

lemma map_no_id:
  "filter (\<lambda>r. id_col r = n) db = [] \<Longrightarrow> map (\<lambda>r. if id_col r = n then f r else r) db = db"
  by (induction db) (auto split: if_splits)

lemma deleteTodo_ok:
  "deleteTodo e db i = (db', 200, b) \<Longrightarrow>
     reachable e \<and> (\<exists>n. int4_in e i = Some n \<and> db' = filter (\<lambda>r. id_col r \<noteq> n) db)"
  by (auto simp: deleteTodo_def delete_by_id_def next_err_def split: if_splits option.splits)

lemma update_absent:
  assumes "reachable e" "int4_in e i = Some n" "filter (\<lambda>r. id_col r = n) db = []"
  shows "fst (snd (updateTodo e db i req_body)) \<in> {400, 500} \<or>
         updateTodo e db i req_body =
           (db, 404, Error (js ''Todo with id '' @ i @ js '' not found''))"
  using assms
  by (auto simp: updateTodo_def update_returning_def next_err_def Let_def map_no_id
           split: option.splits)

section \<open>The examples' environment\<close>

lemma decimal_int4_1: "decimal_int4 (js ''1'') = Some 1"
  by (simp add: decimal_int4_def digit_val_def js_def)

lemma filter_fresh_id:
  "n \<notin> id_col ` set db \<Longrightarrow> filter (\<lambda>x. id_col x = n) db = []"
  by (induction db) auto

lemma filter_unique_id:
  assumes "distinct (map id_col db)" "r \<in> set db"
  shows "filter (\<lambda>x. id_col x = id_col r) db = [r]"
  using assms
proof (induction db)
  case Nil
  then show ?case by simp
next
  case (Cons a db)
  show ?case
  proof (cases "a = r")
    case True
    have "id_col r \<notin> id_col ` set db" using Cons.prems(1) True by simp
    then have "filter (\<lambda>x. id_col x = id_col r) db = []"
      by (rule filter_fresh_id)
    then show ?thesis using True by simp
  next
    case False
    then have r: "r \<in> set db" using Cons.prems(2) by simp
    then have "id_col a \<noteq> id_col r" using Cons.prems(1) by auto
    moreover have "filter (\<lambda>x. id_col x = id_col r) db = [r]"
      using Cons.IH Cons.prems(1) r by simp
    ultimately show ?thesis by simp
  qed
qed


lemma js_nonempty: "(js s = []) = (s = [])"
  by (simp add: js_def)

lemma trim_tea: "trim (js '' tea '') = js ''tea''"
  by (simp add: trim_def js_def is_ws_def)

lemma trim_tea': "trim (js '' tea'') = js ''tea''"
  by (simp add: trim_def js_def is_ws_def)

lemma deleteTodo_milk: "deleteTodo (pg_up 10 3) [milk, eggs] (js ''1'') = ([eggs], 200, Message (js ''Todo deleted''))"
  by (simp add: deleteTodo_def delete_by_id_def pg_up_def decimal_int4_1 milk_def eggs_def)

lemma update_eggs_status:
  "fst (snd (updateTodo (pg_up 11 3) [eggs] (js ''1'') [''completed'' \<mapsto> JBool True])) \<notin> {400, 500}"
  by (simp add: updateTodo_def update_returning_def pg_up_def decimal_int4_1 eggs_def)


lemma keeps_edges_pg_up: "keeps_edges (pg_up t n)"
  by (simp add: keeps_edges_def pg_up_def)

section \<open>Listing\<close>

text \<open>
  C9. In the list responses that wrap the records in an envelope, the \<open>count\<close> field is
  the number of records in the array: for the todo list, where it is the \<open>rowCount\<close>
  of the query, and for the product list, for every table, collection and filter.
\<close>

theorem list_count:
  "(listTodos e db = (db', st, Listing n ts) \<longrightarrow> n = length ts) \<and>
   (listProducts m pdb q = (pdb', st', Listing n' ps) \<longrightarrow> n' = length ps)"
  by (auto simp: listTodos_def select_all_desc_def next_err_def listProducts_def find_def Let_def
           split: if_splits sum.splits option.splits jsval.splits)

theorem list_count_witness:
  "listTodos (pg_up 10 3) [milk] = ([milk], 200, Listing 1 [milk]) \<and> (1::nat) = length [milk] \<and>
   listProducts mongo_up [novel] None = ([novel], 200, Listing 1 [novel]) \<and>
   (1::nat) = length [novel]"
proof -
  have a: "listTodos (pg_up 10 3) [milk] = ([milk], 200, Listing 1 [milk])"
    by (simp add: listTodos_def select_all_desc_def pg_up_def)
  have b: "listProducts mongo_up [novel] None = ([novel], 200, Listing 1 [novel])"
    by (simp add: listProducts_def find_def mongo_up_def)
  from a b
    list_count [of "pg_up 10 3" "[milk]" "[milk]" 200 1 "[milk]" mongo_up "[novel]" None
                   "[novel]" 200 1 "[novel]"]
  show ?thesis by simp
qed

text \<open>
  C7. For every table, the todo list endpoint, when the database answers, returns all
  the rows of the table, each once, ordered by creation time descending (newest
  first).
\<close>

theorem listTodos_newest_first:
  assumes "reachable e"
  shows "\<exists>ts. listTodos e db = (db, 200, Listing (length ts) ts) \<and> mset ts = mset db \<and>
              sorted_wrt (\<lambda>a b. created_at b \<le> created_at a) ts"
proof -
  let ?ts = "rev (sort_key created_at db)"
  have 1: "listTodos e db = (db, 200, Listing (length ?ts) ?ts)"
    using assms by (simp add: listTodos_def select_all_desc_def Let_def)
  have 2: "mset ?ts = mset db" by simp
  have "sorted (map created_at (sort_key created_at db))" by (rule sorted_sort_key)
  then have "sorted_wrt (\<lambda>a b. created_at a \<le> created_at b) (sort_key created_at db)"
    by (simp add: sorted_map)
  then have 3: "sorted_wrt (\<lambda>a b. created_at b \<le> created_at a) ?ts"
    by (simp add: sorted_wrt_rev)
  from 1 2 3 show ?thesis by blast
qed

theorem listTodos_newest_first_witness:
  "reachable (pg_up 10 3) \<and>
   (\<exists>ts. listTodos (pg_up 10 3) [milk, eggs] = ([milk, eggs], 200, Listing (length ts) ts) \<and>
         mset ts = mset [milk, eggs] \<and>
         sorted_wrt (\<lambda>a b. created_at b \<le> created_at a) ts)"
proof -
  have r: "reachable (pg_up 10 3)" by (simp add: pg_up_def)
  from r listTodos_newest_first [OF r, of "[milk, eggs]"] show ?thesis by blast
qed

section \<open>Creating\<close>

lemma foldl_merge_first:
  "foldl (\<lambda>m x. merge_first m (key x) (val x)) m xs k =
     (case m k of
        Some v \<Rightarrow> Some v
      | None \<Rightarrow> map_option val (List.find (\<lambda>x. key x = k) xs))"
proof (induction xs arbitrary: m)
  case Nil
  then show ?case by (simp split: option.splits)
next
  case (Cons x xs)
  let ?step = "\<lambda>m x. merge_first m (key x) (val x)"
  let ?m' = "merge_first m (key x) (val x)"
  have "foldl ?step m (x # xs) k = foldl ?step ?m' xs k" by simp
  also have "\<dots> = (case ?m' k of
                       Some v \<Rightarrow> Some v
                     | None \<Rightarrow> map_option val (List.find (\<lambda>x. key x = k) xs))"
    by (rule Cons.IH)
  also have "\<dots> = (case m k of
                       Some v \<Rightarrow> Some v
                     | None \<Rightarrow> map_option val (List.find (\<lambda>x. key x = k) (x # xs)))"
    by (auto simp: merge_first_def split: option.splits)
  finally show ?case .
qed

lemma toMap_first:
  "toMap key val xs k = map_option val (List.find (\<lambda>x. key x = k) xs)"
  by (simp add: toMap_def foldl_merge_first)

lemma find_key_mem: "x \<in> set xs \<Longrightarrow> List.find (\<lambda>y. key y = key x) xs \<noteq> None"
  by (induction xs) auto

lemma dom_toMap: "dom (toMap key val xs) = key ` set xs"
proof
  show "dom (toMap key val xs) \<subseteq> key ` set xs"
  proof
    fix k assume "k \<in> dom (toMap key val xs)"
    then obtain x where "List.find (\<lambda>x. key x = k) xs = Some x"
      by (auto simp: toMap_first)
    then have "x \<in> set xs \<and> key x = k" by (induction xs) (auto split: if_splits)
    then show "k \<in> key ` set xs" by auto
  qed
  show "key ` set xs \<subseteq> dom (toMap key val xs)"
  proof
    fix k assume "k \<in> key ` set xs"
    then obtain x where "x \<in> set xs" "k = key x" by auto
    then have "List.find (\<lambda>y. key y = k) xs \<noteq> None" using find_key_mem by fastforce
    then show "k \<in> dom (toMap key val xs)" by (auto simp: toMap_first)
  qed
qed


text \<open>
  C4. For every creation payload that omits the required field \<open>title\<close>, the create
  endpoint of the todo API answers 400 with an error body that names the field, and
  the table is left as it was: no row is inserted. In the inventory API the handler
  of a failed validation answers 400 with a \<open>fieldErrors\<close> map whose keys are
  exactly the fields the binding result holds an error for, so every such field is
  named in the body.
\<close>

theorem missing_field_named:
  assumes "req_body ''title'' = None" and "fe \<in> set errs"
  shows "createTodo e db req_body =
           (db, 400, Error (js ''title is required and must be a non-empty string'')) \<and>
         sublist (js ''title'') (js ''title is required and must be a non-empty string'') \<and>
         fst (handleValidation errs local_now) = 400 \<and>
         (\<exists>fm. fieldErrors (snd (handleValidation errs local_now)) = Some fm \<and>
               dom fm = getField ` set errs \<and> getField fe \<in> dom fm)"
proof -
  have "prefix (js ''title'') (js ''title is required and must be a non-empty string'')"
    by (simp add: js_def)
  then have n: "sublist (js ''title'') (js ''title is required and must be a non-empty string'')"
    by (rule prefix_imp_sublist)
  have c: "createTodo e db req_body =
           (db, 400, Error (js ''title is required and must be a non-empty string''))"
    using assms(1) by (simp add: createTodo_def)
  let ?fm = "toMap getField
              (\<lambda>fe. case getDefaultMessage fe of Some msg \<Rightarrow> msg | None \<Rightarrow> js ''Invalid value'')
              errs"
  have s: "fst (handleValidation errs local_now) = 400"
    by (simp add: handleValidation_def Let_def)
  have f: "fieldErrors (snd (handleValidation errs local_now)) = Some ?fm"
    by (simp add: handleValidation_def Let_def)
  have d: "dom ?fm = getField ` set errs" by (rule dom_toMap)
  then have m: "getField fe \<in> dom ?fm" using assms(2) by simp
  from c n s f d m show ?thesis by blast
qed

theorem missing_field_named_witness:
  "[''completed'' \<mapsto> JBool True] ''title'' = None \<and> name_blank \<in> set [name_blank] \<and>
   createTodo (pg_up 10 3) [milk] [''completed'' \<mapsto> JBool True] =
     ([milk], 400, Error (js ''title is required and must be a non-empty string'')) \<and>
   fst (handleValidation [name_blank] ''2026-02-27T12:00:00'') = 400 \<and>
   (\<exists>fm. fieldErrors (snd (handleValidation [name_blank] ''2026-02-27T12:00:00'')) = Some fm \<and>
         dom fm = getField ` set [name_blank] \<and> getField name_blank \<in> dom fm)"
proof -
  have h: "[''completed'' \<mapsto> JBool True] ''title'' = None" by simp
  have i: "name_blank \<in> set [name_blank]" by simp
  note t = missing_field_named
             [of "[''completed'' \<mapsto> JBool True]" name_blank "[name_blank]" "pg_up 10 3" "[milk]"
                 "''2026-02-27T12:00:00''", OF h i]
  from h i t show ?thesis by blast
qed

text \<open>
  C3, as the code has it. A payload whose \<open>title\<close> is a string that is not blank,
  sent while the database answers, the column accepts the trimmed title and the
  sequence hands out an unused id, is answered with 201 and the new row: its title
  is the payload's title with the whitespace at both ends removed, as the column
  stores it, \<open>completed\<close> is false and both timestamps are the time of the insert,
  whatever else the payload holds. A later GET of the returned id is answered with
  200 and the same row.
\<close>

theorem create_then_get:
  assumes "reachable e" and "req_body ''title'' = Some (JStr s)" and "trim s \<noteq> []"
      and "varchar_in e (trim s) = Some t" and "nextval e \<notin> id_col ` set db"
      and "reachable e'" and "int4_in e' i = Some (nextval e)"
      and "r = \<lparr>id_col = nextval e, title = t, completed = False,
                created_at = now e, updated_at = now e\<rparr>"
  shows "createTodo e db req_body = (db @ [r], 201, Row r) \<and>
         getTodo e' (db @ [r]) i = (db @ [r], 200, Row r)"
proof -
  have "s \<noteq> []" using assms(3) by (auto simp: trim_def)
  then have c: "createTodo e db req_body = (db @ [r], 201, Row r)"
    using assms(1-5,8) by (simp add: createTodo_def insert_returning_def first_row_def Let_def)
  have "filter (\<lambda>x. id_col x = nextval e) db = []"
    using assms(5) by (rule filter_fresh_id)
  then have g: "getTodo e' (db @ [r]) i = (db @ [r], 200, Row r)"
    using assms(6,7,8) by (simp add: getTodo_def select_by_id_def first_row_def)
  from c g show ?thesis by simp
qed

theorem create_then_get_witness:
  "reachable (pg_up 10 1) \<and> [''title'' \<mapsto> JStr (js '' tea '')] ''title'' = Some (JStr (js '' tea '')) \<and>
   trim (js '' tea '') \<noteq> [] \<and> varchar_in (pg_up 10 1) (trim (js '' tea '')) = Some (js ''tea'') \<and>
   nextval (pg_up 10 1) \<notin> id_col ` set [eggs] \<and> reachable (pg_up 11 2) \<and>
   int4_in (pg_up 11 2) (js ''1'') = Some (nextval (pg_up 10 1)) \<and>
   createTodo (pg_up 10 1) [eggs] [''title'' \<mapsto> JStr (js '' tea '')] =
     ([eggs, \<lparr>id_col = 1, title = js ''tea'', completed = False, created_at = 10, updated_at = 10\<rparr>],
      201,
      Row \<lparr>id_col = 1, title = js ''tea'', completed = False, created_at = 10, updated_at = 10\<rparr>) \<and>
   getTodo (pg_up 11 2)
     [eggs, \<lparr>id_col = 1, title = js ''tea'', completed = False, created_at = 10, updated_at = 10\<rparr>]
     (js ''1'') =
     ([eggs, \<lparr>id_col = 1, title = js ''tea'', completed = False, created_at = 10, updated_at = 10\<rparr>],
      200,
      Row \<lparr>id_col = 1, title = js ''tea'', completed = False, created_at = 10, updated_at = 10\<rparr>)"
proof -
  have 1: "reachable (pg_up 10 1)" by (simp add: pg_up_def)
  have 2: "[''title'' \<mapsto> JStr (js '' tea '')] ''title'' = Some (JStr (js '' tea ''))" by simp
  have 3: "trim (js '' tea '') \<noteq> []" by (simp add: trim_tea js_nonempty)
  have 4: "varchar_in (pg_up 10 1) (trim (js '' tea '')) = Some (js ''tea'')"
    by (simp add: pg_up_def trim_tea)
  have 5: "nextval (pg_up 10 1) \<notin> id_col ` set [eggs]" by (simp add: pg_up_def eggs_def)
  have 6: "reachable (pg_up 11 2)" by (simp add: pg_up_def)
  have 7: "int4_in (pg_up 11 2) (js ''1'') = Some (nextval (pg_up 10 1))"
    by (simp add: pg_up_def decimal_int4_1)
  have 8: "\<lparr>id_col = 1, title = js ''tea'', completed = False, created_at = 10, updated_at = 10\<rparr> =
           \<lparr>id_col = nextval (pg_up 10 1), title = js ''tea'', completed = False,
             created_at = now (pg_up 10 1), updated_at = now (pg_up 10 1)\<rparr>"
    by (simp add: pg_up_def)
  note t = create_then_get
    [where req_body = "[''title'' \<mapsto> JStr (js '' tea '')]" and s = "js '' tea ''",
     OF 1 2 3 4 5 6 7 8]
  from 1 2 3 4 5 6 7 t show ?thesis by simp
qed

text \<open>
  C3 as stated fails: the payload \<open>{"title": " tea "}\<close> is valid, and the row
  created and fetched has the title \<open>"tea"\<close>, not the payload's.
\<close>

theorem create_then_get_counterexample:
  "createTodo (pg_up 10 1) [] [''title'' \<mapsto> JStr (js '' tea '')] =
     ([\<lparr>id_col = 1, title = js ''tea'', completed = False, created_at = 10, updated_at = 10\<rparr>],
      201,
      Row \<lparr>id_col = 1, title = js ''tea'', completed = False, created_at = 10, updated_at = 10\<rparr>) \<and>
   getTodo (pg_up 11 2)
     [\<lparr>id_col = 1, title = js ''tea'', completed = False, created_at = 10, updated_at = 10\<rparr>]
     (js ''1'') =
     ([\<lparr>id_col = 1, title = js ''tea'', completed = False, created_at = 10, updated_at = 10\<rparr>],
      200,
      Row \<lparr>id_col = 1, title = js ''tea'', completed = False, created_at = 10, updated_at = 10\<rparr>) \<and>
   js ''tea'' \<noteq> js '' tea ''"
proof -
  have c: "createTodo (pg_up 10 1) [] [''title'' \<mapsto> JStr (js '' tea '')] =
     ([\<lparr>id_col = 1, title = js ''tea'', completed = False, created_at = 10, updated_at = 10\<rparr>],
      201,
      Row \<lparr>id_col = 1, title = js ''tea'', completed = False, created_at = 10, updated_at = 10\<rparr>)"
    by (simp add: createTodo_def insert_returning_def first_row_def pg_up_def trim_tea
                  js_nonempty Let_def)
  have g: "getTodo (pg_up 11 2)
     [\<lparr>id_col = 1, title = js ''tea'', completed = False, created_at = 10, updated_at = 10\<rparr>]
     (js ''1'') =
     ([\<lparr>id_col = 1, title = js ''tea'', completed = False, created_at = 10, updated_at = 10\<rparr>],
      200,
      Row \<lparr>id_col = 1, title = js ''tea'', completed = False, created_at = 10, updated_at = 10\<rparr>)"
    by (simp add: getTodo_def select_by_id_def first_row_def pg_up_def decimal_int4_1)
  have n: "js ''tea'' \<noteq> js '' tea ''" by (simp add: js_def)
  from c g n show ?thesis by simp
qed

section \<open>Updating\<close>

text \<open>
  C2, as the code has it. For a stored row with a unique id, while the database
  answers: an update whose body supplies only a \<open>title\<close>, a string that is not blank
  and whose trimmed form the column accepts, sets the title to the supplied value
  with the whitespace at both ends removed, as the column stores it; an update whose
  body supplies only a boolean \<open>completed\<close> sets that field to the supplied value. In
  both cases \<open>updated_at\<close> becomes the time of the update, every other field of the
  row and every other row stay as they were, and the response is 200 with the row.
\<close>

theorem partial_update:
  assumes "reachable e" and "int4_in e i = Some (id_col r)"
      and "distinct (map id_col db)" and "r \<in> set db"
  shows "(req_body ''title'' = Some (JStr s) \<and> req_body ''completed'' = None \<and>
          trim s \<noteq> [] \<and> varchar_in e (trim s) = Some t \<longrightarrow>
            updateTodo e db i req_body =
              (map (\<lambda>x. if id_col x = id_col r then x\<lparr>title := t, updated_at := now e\<rparr> else x) db,
               200, Row (r\<lparr>title := t, updated_at := now e\<rparr>))) \<and>
         (req_body ''title'' = None \<and> req_body ''completed'' = Some (JBool c) \<longrightarrow>
            updateTodo e db i req_body =
              (map (\<lambda>x. if id_col x = id_col r then x\<lparr>completed := c, updated_at := now e\<rparr> else x) db,
               200, Row (r\<lparr>completed := c, updated_at := now e\<rparr>)))"
proof -
  have f: "filter (\<lambda>x. id_col x = id_col r) db = [r]"
    using assms(3,4) by (rule filter_unique_id)
  show ?thesis
    using assms(1,2) f
    by (simp add: updateTodo_def update_returning_def first_row_def Let_def)
qed


theorem partial_update_witness:
  "reachable (pg_up 10 3) \<and> int4_in (pg_up 10 3) (js ''1'') = Some (id_col milk) \<and>
   distinct (map id_col [milk, eggs]) \<and> milk \<in> set [milk, eggs] \<and>
   [''title'' \<mapsto> JStr (js '' tea'')] ''title'' = Some (JStr (js '' tea'')) \<and>
   [''title'' \<mapsto> JStr (js '' tea'')] ''completed'' = None \<and>
   trim (js '' tea'') \<noteq> [] \<and> varchar_in (pg_up 10 3) (trim (js '' tea'')) = Some (js ''tea'') \<and>
   updateTodo (pg_up 10 3) [milk, eggs] (js ''1'') [''title'' \<mapsto> JStr (js '' tea'')] =
     ([milk\<lparr>title := js ''tea'', updated_at := 10\<rparr>, eggs], 200,
      Row (milk\<lparr>title := js ''tea'', updated_at := 10\<rparr>)) \<and>
   [''completed'' \<mapsto> JBool True] ''title'' = None \<and>
   [''completed'' \<mapsto> JBool True] ''completed'' = Some (JBool True) \<and>
   updateTodo (pg_up 10 3) [milk, eggs] (js ''1'') [''completed'' \<mapsto> JBool True] =
     ([milk\<lparr>completed := True, updated_at := 10\<rparr>, eggs], 200,
      Row (milk\<lparr>completed := True, updated_at := 10\<rparr>))"
proof -
  have 1: "reachable (pg_up 10 3)" by (simp add: pg_up_def)
  have 2: "int4_in (pg_up 10 3) (js ''1'') = Some (id_col milk)"
    by (simp add: pg_up_def decimal_int4_1 milk_def)
  have 3: "distinct (map id_col [milk, eggs])" by (simp add: milk_def eggs_def)
  have 4: "milk \<in> set [milk, eggs]" by simp
  have 5: "trim (js '' tea'') \<noteq> []" by (simp add: trim_tea' js_nonempty)
  have 6: "varchar_in (pg_up 10 3) (trim (js '' tea'')) = Some (js ''tea'')"
    by (simp add: pg_up_def trim_tea')
  have m: "id_col eggs \<noteq> id_col milk" by (simp add: milk_def eggs_def)
  have n: "now (pg_up 10 3) = 10" by (simp add: pg_up_def)
  note t = partial_update [OF 1 2 3 4, of "[''title'' \<mapsto> JStr (js '' tea'')]" "js '' tea''" "js ''tea''"]
  note c = partial_update [OF 1 2 3 4, of "[''completed'' \<mapsto> JBool True]" _ _ True]
  from t 5 6 have a: "updateTodo (pg_up 10 3) [milk, eggs] (js ''1'') [''title'' \<mapsto> JStr (js '' tea'')] =
     ([milk\<lparr>title := js ''tea'', updated_at := 10\<rparr>, eggs], 200,
      Row (milk\<lparr>title := js ''tea'', updated_at := 10\<rparr>))"
    by (simp add: m n)
  from c have b: "updateTodo (pg_up 10 3) [milk, eggs] (js ''1'') [''completed'' \<mapsto> JBool True] =
     ([milk\<lparr>completed := True, updated_at := 10\<rparr>, eggs], 200,
      Row (milk\<lparr>completed := True, updated_at := 10\<rparr>))"
    by (simp add: m n)
  from 1 2 3 4 5 6 a b show ?thesis by simp
qed

text \<open>
  C2 as stated fails: the body \<open>{"title": " tea"}\<close> supplies one field, and the stored
  row and the 200 response have the title \<open>"tea"\<close>, not the supplied value.
\<close>

theorem partial_update_counterexample:
  "updateTodo (pg_up 10 3) [milk] (js ''1'') [''title'' \<mapsto> JStr (js '' tea'')] =
     ([milk\<lparr>title := js ''tea'', updated_at := 10\<rparr>], 200,
      Row (milk\<lparr>title := js ''tea'', updated_at := 10\<rparr>)) \<and>
   js ''tea'' \<noteq> js '' tea''"
  by (simp add: updateTodo_def update_returning_def first_row_def pg_up_def decimal_int4_1
                milk_def trim_tea' js_nonempty) (simp add: js_def)

section \<open>Deleting\<close>

lemma deleteProduct_absent:
  assumes "connected m" "objectid_cast m i = Some k" "k \<notin> oid ` set pdb"
  shows "deleteProduct m pdb i = (pdb, 404, Error (js ''Product not found''))"
proof -
  have "List.find (\<lambda>p. oid p = k) pdb = None"
    using assms(3) by (auto simp: find_None_iff)
  then show ?thesis
    using assms(1,2) by (simp add: deleteProduct_def findByIdAndDelete_def)
qed

lemma find_absent: "k \<notin> oid ` set pdb \<Longrightarrow> List.find (\<lambda>p. oid p = k) pdb = None"
  by (induction pdb) auto

lemma remove1_unique:
  "distinct (map f xs) \<Longrightarrow> x \<in> set xs \<Longrightarrow> f x \<notin> f ` set (remove1 x xs)"
proof (induction xs)
  case Nil
  then show ?case by simp
next
  case (Cons a xs)
  show ?case
  proof (cases "a = x")
    case True
    then show ?thesis using Cons.prems(1) by simp
  next
    case False
    then have x: "x \<in> set xs" using Cons.prems(2) by simp
    have "f a \<notin> f ` set xs" using Cons.prems(1) by simp
    then have "f x \<noteq> f a" using x by (metis imageI)
    moreover have "f x \<notin> f ` set (remove1 x xs)" using Cons.IH Cons.prems(1) x by simp
    ultimately show ?thesis using False by simp
  qed
qed

lemma find_Some_mem: "List.find P xs = Some x \<Longrightarrow> x \<in> set xs \<and> P x"
  by (induction xs) (auto split: if_splits)

lemma deleteProduct_ok:
  assumes "deleteProduct m pdb j = (pdb', 200, pb)"
  shows "\<exists>k p. objectid_cast m j = Some k \<and> p \<in> set pdb \<and> oid p = k \<and> pdb' = remove1 p pdb"
  using assms
  by (auto simp: deleteProduct_def findByIdAndDelete_def isCastError_def
           split: option.splits if_splits dest: find_Some_mem)

lemma getProduct_absent:
  assumes "connected m" "objectid_cast m i = Some k" "k \<notin> oid ` set pdb"
  shows "getProduct m pdb i = (pdb, 404, Error (js ''Product not found''))"
  using assms(1,2) find_absent [OF assms(3)] by (simp add: getProduct_def findById_def)

lemma updateProduct_absent:
  assumes "connected m" "objectid_cast m i = Some k" "k \<notin> oid ` set pdb"
  shows "fst (snd (updateProduct m pdb i product_body)) \<in> {400, 500} \<or>
         updateProduct m pdb i product_body = (pdb, 404, Error (js ''Product not found''))"
  using assms(1,2) find_absent [OF assms(3)]
  by (auto simp: updateProduct_def findByIdAndUpdate_def split: sum.splits)

lemma hex_objectid_10: "hex_objectid (js ''000000000000000000000010'') = Some 0x10"
  by (simp add: hex_objectid_def hex_val_def js_def)

lemma deleteProduct_novel:
  "deleteProduct mongo_up [novel] (js ''000000000000000000000010'') =
     ([], 200, Message (js ''Product deleted''))"
  by (simp add: deleteProduct_def findByIdAndDelete_def mongo_up_def hex_objectid_10 novel_def)

lemma updateProduct_gone_status:
  "fst (snd (updateProduct mongo_up [] (js ''000000000000000000000010'')
               (JObj [(js ''inStock'', JBool False)]))) \<notin> {400, 500}"
  by (simp add: updateProduct_def findByIdAndUpdate_def update_of_def mongo_up_def
                hex_objectid_10 stock_update_def)


text \<open>
  C1, as the code has it. After a DELETE of an id that the todo API answers with
  200, a later GET of that id is answered with 404; a later PUT is answered with 404
  unless its body is refused with 400 or the server refuses a value with 500; a later
  DELETE is answered with 200 again, since \<open>deleteTodo\<close> deletes without fetching. In
  the products API, where delete is fetch-or-404 and ids are unique, after a DELETE
  answered with 200 a later GET and a later DELETE of that id are answered with 404, as
  is a later PUT unless it is refused with 400 or 500.
\<close>

theorem delete_then_requests:
  assumes "deleteTodo e db i = (db', 200, b)"
      and "reachable e'" and "int4_in e' i = int4_in e i"
      and "deleteProduct m pdb j = (pdb', 200, pb)" and "distinct (map oid pdb)"
      and "connected m'" and "objectid_cast m' j = objectid_cast m j"
  shows "getTodo e' db' i = (db', 404, Error (js ''Todo with id '' @ i @ js '' not found'')) \<and>
         (fst (snd (updateTodo e' db' i req_body)) \<notin> {400, 500} \<longrightarrow>
            updateTodo e' db' i req_body =
              (db', 404, Error (js ''Todo with id '' @ i @ js '' not found''))) \<and>
         deleteTodo e' db' i = (db', 200, Message (js ''Todo deleted'')) \<and>
         getProduct m' pdb' j = (pdb', 404, Error (js ''Product not found'')) \<and>
         (fst (snd (updateProduct m' pdb' j product_body)) \<notin> {400, 500} \<longrightarrow>
            updateProduct m' pdb' j product_body =
              (pdb', 404, Error (js ''Product not found''))) \<and>
         deleteProduct m' pdb' j = (pdb', 404, Error (js ''Product not found''))"
proof -
  from assms(1) obtain n where n: "int4_in e i = Some n"
    and db': "db' = filter (\<lambda>r. id_col r \<noteq> n) db"
    using deleteTodo_ok by blast
  have none: "filter (\<lambda>r. id_col r = n) db' = []"
    by (simp only: db' filter_other_id)
  have n': "int4_in e' i = Some n" using assms(3) n by simp
  have g: "getTodo e' db' i = (db', 404, Error (js ''Todo with id '' @ i @ js '' not found''))"
    using assms(2) n' none by (simp add: getTodo_def select_by_id_def)
  have u: "fst (snd (updateTodo e' db' i req_body)) \<notin> {400, 500} \<longrightarrow>
            updateTodo e' db' i req_body =
              (db', 404, Error (js ''Todo with id '' @ i @ js '' not found''))"
    using update_absent [OF assms(2) n' none, of req_body] by blast
  have "filter (\<lambda>r. id_col r \<noteq> n) db' = db'"
    by (simp add: db')
  then have d: "deleteTodo e' db' i = (db', 200, Message (js ''Todo deleted''))"
    using assms(2) n' by (simp add: deleteTodo_def delete_by_id_def)
  from deleteProduct_ok [OF assms(4)] obtain k p where k: "objectid_cast m j = Some k"
    and p: "p \<in> set pdb" "oid p = k" and pdb': "pdb' = remove1 p pdb" by blast
  have k': "objectid_cast m' j = Some k" using assms(7) k by simp
  have gone: "k \<notin> oid ` set pdb'"
    using remove1_unique [OF assms(5) p(1)] p(2) pdb' by simp
  have pg: "getProduct m' pdb' j = (pdb', 404, Error (js ''Product not found''))"
    using assms(6) k' gone by (rule getProduct_absent)
  have pu: "fst (snd (updateProduct m' pdb' j product_body)) \<notin> {400, 500} \<longrightarrow>
            updateProduct m' pdb' j product_body =
              (pdb', 404, Error (js ''Product not found''))"
    using updateProduct_absent [OF assms(6) k' gone, of product_body] by blast
  have pd: "deleteProduct m' pdb' j = (pdb', 404, Error (js ''Product not found''))"
    using assms(6) k' gone by (rule deleteProduct_absent)
  from g u d pg pu pd show ?thesis by blast
qed


theorem delete_then_requests_witness:
  "deleteTodo (pg_up 10 3) [milk, eggs] (js ''1'') = ([eggs], 200, Message (js ''Todo deleted'')) \<and>
   reachable (pg_up 11 3) \<and> int4_in (pg_up 11 3) (js ''1'') = int4_in (pg_up 10 3) (js ''1'') \<and>
   deleteProduct mongo_up [novel] (js ''000000000000000000000010'') =
     ([], 200, Message (js ''Product deleted'')) \<and>
   distinct (map oid [novel]) \<and> connected mongo_up \<and>
   getTodo (pg_up 11 3) [eggs] (js ''1'') =
     ([eggs], 404, Error (js ''Todo with id '' @ js ''1'' @ js '' not found'')) \<and>
   fst (snd (updateTodo (pg_up 11 3) [eggs] (js ''1'') [''completed'' \<mapsto> JBool True])) \<notin>
     {400, 500} \<and>
   updateTodo (pg_up 11 3) [eggs] (js ''1'') [''completed'' \<mapsto> JBool True] =
     ([eggs], 404, Error (js ''Todo with id '' @ js ''1'' @ js '' not found'')) \<and>
   deleteTodo (pg_up 11 3) [eggs] (js ''1'') = ([eggs], 200, Message (js ''Todo deleted'')) \<and>
   getProduct mongo_up [] (js ''000000000000000000000010'') =
     ([], 404, Error (js ''Product not found'')) \<and>
   fst (snd (updateProduct mongo_up [] (js ''000000000000000000000010'')
               (JObj [(js ''inStock'', JBool False)]))) \<notin> {400, 500} \<and>
   updateProduct mongo_up [] (js ''000000000000000000000010'')
       (JObj [(js ''inStock'', JBool False)]) =
     ([], 404, Error (js ''Product not found'')) \<and>
   deleteProduct mongo_up [] (js ''000000000000000000000010'') =
     ([], 404, Error (js ''Product not found''))"
proof -
  have 1: "deleteTodo (pg_up 10 3) [milk, eggs] (js ''1'') =
             ([eggs], 200, Message (js ''Todo deleted''))"
    by (rule deleteTodo_milk)
  have 2: "reachable (pg_up 11 3)" by (simp add: pg_up_def)
  have 3: "int4_in (pg_up 11 3) (js ''1'') = int4_in (pg_up 10 3) (js ''1'')"
    by (simp add: pg_up_def)
  have 4: "deleteProduct mongo_up [novel] (js ''000000000000000000000010'') =
             ([], 200, Message (js ''Product deleted''))"
    by (rule deleteProduct_novel)
  have 5: "distinct (map oid [novel])" by simp
  have 6: "connected mongo_up" by (simp add: mongo_up_def)
  have 7: "objectid_cast mongo_up (js ''000000000000000000000010'') =
           objectid_cast mongo_up (js ''000000000000000000000010'')" by simp
  note t = delete_then_requests [OF 1 2 3 4 5 6 7, of "[''completed'' \<mapsto> JBool True]"
                                   "JObj [(js ''inStock'', JBool False)]"]
  from 1 2 3 4 5 6 t update_eggs_status updateProduct_gone_status show ?thesis by blast
qed

text \<open>
  C1 as stated fails: the DELETE of an id that was just deleted, and is absent from
  the table, is answered with 200 and not with 404.
\<close>

theorem delete_twice_counterexample:
  "fst (snd (deleteTodo (pg_up 10 3) [milk] (js ''1''))) = 200 \<and>
   fst (snd (deleteTodo (pg_up 11 3) (fst (deleteTodo (pg_up 10 3) [milk] (js ''1''))) (js ''1''))) = 200"
  by (simp add: deleteTodo_def delete_by_id_def pg_up_def decimal_int4_1 milk_def)

section \<open>Stored titles\<close>

lemma create_keeps:
  assumes "keeps_edges e" "\<forall>r\<in>set db. \<not> edge_ws (title r)"
  shows "\<forall>r\<in>set (fst (createTodo e db req_body)). \<not> edge_ws (title r)"
proof -
  have k: "varchar_in e (trim s) = Some t \<Longrightarrow> \<not> edge_ws t" for s t
    using assms(1) trim_no_edge [of s] by (auto simp: keeps_edges_def)
  show ?thesis
    using assms(2) k
    by (auto simp: createTodo_def insert_returning_def Let_def
             split: if_splits option.splits sum.splits)
qed

lemma update_keeps:
  assumes "keeps_edges e" "\<forall>r\<in>set db. \<not> edge_ws (title r)"
  shows "\<forall>r\<in>set (fst (updateTodo e db i req_body)). \<not> edge_ws (title r)"
proof -
  have k: "varchar_in e (trim s) = Some t \<Longrightarrow> \<not> edge_ws t" for s t
    using assms(1) trim_no_edge [of s] by (auto simp: keeps_edges_def)
  show ?thesis
    using assms(2) k
    by (auto simp: updateTodo_def update_returning_def Let_def
             split: if_splits option.splits sum.splits)
qed

lemma handle_keeps:
  assumes "keeps_edges e" "\<forall>r\<in>set db. \<not> edge_ws (title r)"
  shows "\<forall>r\<in>set (fst (handle e db rq)). \<not> edge_ws (title r)"
proof (cases rq)
  case ListTodos
  then show ?thesis using assms(2)
    by (auto simp: listTodos_def split: sum.splits)
next
  case (CreateTodo b)
  then show ?thesis using create_keeps [OF assms] by simp
next
  case (GetTodo i)
  then show ?thesis using assms(2)
    by (auto simp: getTodo_def split: sum.splits if_splits)
next
  case (UpdateTodo i b)
  then show ?thesis using update_keeps [OF assms] by simp
next
  case (DeleteTodo i)
  then show ?thesis using assms(2)
    by (auto simp: deleteTodo_def delete_by_id_def split: sum.splits if_splits option.splits)
qed

lemma run_keeps:
  "\<forall>(e, rq)\<in>set reqs. keeps_edges e \<Longrightarrow> \<forall>r\<in>set db. \<not> edge_ws (title r) \<Longrightarrow>
   \<forall>r\<in>set (run db reqs). \<not> edge_ws (title r)"
proof (induction reqs arbitrary: db)
  case Nil
  then show ?case by simp
next
  case (Cons a reqs)
  obtain e rq where a: "a = (e, rq)" by (cases a)
  have "keeps_edges e" using Cons.prems(1) a by simp
  then have "\<forall>r\<in>set (fst (handle e db rq)). \<not> edge_ws (title r)"
    using Cons.prems(2) by (rule handle_keeps)
  moreover have "\<forall>(e, rq)\<in>set reqs. keeps_edges e" using Cons.prems(1) by simp
  ultimately have "\<forall>r\<in>set (run (fst (handle e db rq)) reqs). \<not> edge_ws (title r)"
    by (rule Cons.IH [rotated])
  then show ?case by (simp add: a)
qed

text \<open>
  The todo API keeps its titles trimmed. If no title in the table has whitespace at
  its start or its end, then after any run of requests to the five endpoints none has,
  provided the column keeps a text without such whitespace free of it; in particular
  no table reached from the empty one holds such a title.
\<close>

theorem titles_stay_trimmed:
  assumes "\<forall>(e, rq)\<in>set reqs. keeps_edges e"
  shows "((\<forall>r\<in>set db. \<not> edge_ws (title r)) \<longrightarrow> (\<forall>r\<in>set (run db reqs). \<not> edge_ws (title r))) \<and>
         (\<forall>r\<in>set (run [] reqs). \<not> edge_ws (title r))"
proof -
  have "\<forall>r\<in>set ([] :: todos). \<not> edge_ws (title r)" by simp
  then have "\<forall>r\<in>set (run [] reqs). \<not> edge_ws (title r)"
    by (rule run_keeps [OF assms])
  moreover have "(\<forall>r\<in>set db. \<not> edge_ws (title r)) \<longrightarrow>
                 (\<forall>r\<in>set (run db reqs). \<not> edge_ws (title r))"
    using run_keeps [OF assms, of db] by blast
  ultimately show ?thesis by blast
qed

theorem titles_stay_trimmed_witness:
  "keeps_edges (pg_up 10 1) \<and> keeps_edges (pg_up 11 2) \<and> \<not> edge_ws (title milk) \<and>
   run []
       [(pg_up 10 1, CreateTodo [''title'' \<mapsto> JStr (js '' tea '')]),
        (pg_up 11 2, UpdateTodo (js ''1'') [''title'' \<mapsto> JStr (js '' tea'')])] =
     [\<lparr>id_col = 1, title = js ''tea'', completed = False, created_at = 10, updated_at = 11\<rparr>] \<and>
   \<not> edge_ws (js ''tea'') \<and>
   \<not> edge_ws (title (hd (run [milk]
       [(pg_up 10 1, CreateTodo [''title'' \<mapsto> JStr (js '' tea '')]),
        (pg_up 11 2, UpdateTodo (js ''1'') [''title'' \<mapsto> JStr (js '' tea'')])])))"
proof -
  let ?reqs = "[(pg_up 10 1, CreateTodo [''title'' \<mapsto> JStr (js '' tea '')]),
                (pg_up 11 2, UpdateTodo (js ''1'') [''title'' \<mapsto> JStr (js '' tea'')])]"
  let ?row = "\<lparr>id_col = 1, title = js ''tea'', completed = False, created_at = 10,
               updated_at = 11\<rparr>"
  have k1: "keeps_edges (pg_up 10 1)" and k2: "keeps_edges (pg_up 11 2)"
    by (rule keeps_edges_pg_up)+
  have 1: "\<forall>(e, rq)\<in>set ?reqs. keeps_edges e" using k1 k2 by simp
  have 2: "\<not> edge_ws (title milk)"
    by (simp add: milk_def edge_ws_def js_def is_ws_def)
  have 3: "run [] ?reqs = [?row]"
    by (simp add: createTodo_def insert_returning_def updateTodo_def update_returning_def
                  first_row_def pg_up_def trim_tea trim_tea' js_nonempty Let_def decimal_int4_1)
  have 4: "run [milk] ?reqs = [milk\<lparr>title := js ''tea'', updated_at := 11\<rparr>]"
    by (simp add: createTodo_def insert_returning_def updateTodo_def update_returning_def
                  first_row_def pg_up_def trim_tea trim_tea' js_nonempty Let_def decimal_int4_1
                  milk_def)
  note t = titles_stay_trimmed [OF 1, of "[milk]"]
  from t have "\<forall>r\<in>set (run [] ?reqs). \<not> edge_ws (title r)" by (rule conjunct2)
  then have 5: "\<not> edge_ws (js ''tea'')" unfolding 3 by simp
  from t 2 have "\<forall>r\<in>set (run [milk] ?reqs). \<not> edge_ws (title r)" by simp
  then have 6: "\<not> edge_ws (title (hd (run [milk] ?reqs)))" unfolding 4 by simp
  show ?thesis
    by (intro conjI) (rule k1, rule k2, rule 2, rule 3, rule 5, rule 6)
qed

section \<open>Stored names\<close>

lemma edge_ws_Novel: "\<not> edge_ws (js ''Novel'')"
  by (simp add: edge_ws_def js_def is_ws_def)

lemma edge_ws_x: "edge_ws (js '' x '')"
  by (simp add: edge_ws_def js_def is_ws_def)

lemma set_name_stage_x:
  "set_name_stage (JObj [(js ''$set'', JObj [(js ''name'', JStr (js '' x ''))])]) =
     Some (js '' x '')"
  by (simp add: set_name_stage_def) (simp add: js_def)

text \<open>
  C10 does not hold of the products API. The schema declares \<open>trim: true\<close> for
  \<open>name\<close>, and \<open>updateProduct\<close> passes the body of the request to
  \<open>findByIdAndUpdate\<close> as it is; a body that is an update pipeline reaches MongoDB
  without the setters of the schema. The collection holds one product, whose name has
  no whitespace at its ends; the PUT of its id with the body
  \<open>[{"$set": {"name": " x "}}]\<close> is answered 200 with the product as stored, and
  the stored name is \<open>" x "\<close>, with whitespace at both ends.
\<close>

theorem pipeline_update_stores_untrimmed_name:
  "updateProduct mongo_up [novel] (js ''000000000000000000000010'')
       (JArr [JObj [(js ''$set'', JObj [(js ''name'', JStr (js '' x ''))])]]) =
     ([novel\<lparr>name := js '' x '', updatedAt := 7\<rparr>], 200,
      Row (novel\<lparr>name := js '' x '', updatedAt := 7\<rparr>)) \<and>
   \<not> edge_ws (name novel) \<and>
   edge_ws (name (novel\<lparr>name := js '' x '', updatedAt := 7\<rparr>))"
proof -
  have "update_of mongo_up
          (JArr [JObj [(js ''$set'', JObj [(js ''name'', JStr (js '' x ''))])]]) =
        Inr (\<lambda>p. p\<lparr>name := js '' x '', updatedAt := 7\<rparr>)"
    by (simp add: update_of_def update_pipeline_def set_name_stage_x mongo_up_def)
  then have "updateProduct mongo_up [novel] (js ''000000000000000000000010'')
               (JArr [JObj [(js ''$set'', JObj [(js ''name'', JStr (js '' x ''))])]]) =
             ([novel\<lparr>name := js '' x '', updatedAt := 7\<rparr>], 200,
              Row (novel\<lparr>name := js '' x '', updatedAt := 7\<rparr>))"
    by (simp add: updateProduct_def findByIdAndUpdate_def mongo_up_def hex_objectid_10 novel_def)
  moreover have "\<not> edge_ws (name novel)"
    by (simp add: novel_def edge_ws_Novel)
  moreover have "edge_ws (name (novel\<lparr>name := js '' x '', updatedAt := 7\<rparr>))"
    by (simp add: edge_ws_x)
  ultimately show ?thesis by blast
qed

section \<open>Filtering the list\<close>

text \<open>
  C6, as the code has it. While the database answers: with a filter value that is a
  string and not empty, the product list returns exactly the stored records whose
  category equals the value as the schema's string cast reads it, that is, without
  the whitespace at its ends, every such record and no other; with the filter absent
  or the empty string it returns all records. The item list does the same with the
  records whose warehouse equals a value that is not blank, and returns all records
  for an absent or blank value.
\<close>

theorem list_filter:
  assumes "connected m" and "up"
  shows "listProducts m db None = (db, 200, Listing (length db) db) \<and>
         listProducts m db (Some (JStr [])) = (db, 200, Listing (length db) db) \<and>
         (v \<noteq> [] \<longrightarrow>
            listProducts m db (Some (JStr v)) =
              (db, 200, Listing (length (filter (\<lambda>p. category p = trim v) db))
                                (filter (\<lambda>p. category p = trim v) db))) \<and>
         listItems up items None = Inr (200, items) \<and>
         (isBlank w \<longrightarrow> listItems up items (Some w) = Inr (200, items)) \<and>
         (\<not> isBlank w \<longrightarrow>
            listItems up items (Some w) = Inr (200, filter (\<lambda>i. warehouse i = Some w) items))"
  using assms
  by (simp add: listProducts_def find_def listItems_def findAll_def findByWarehouse_def)

theorem list_filter_witness:
  "connected mongo_up \<and> True \<and> js ''books'' \<noteq> [] \<and>
   listProducts mongo_up [novel, bread] (Some (JStr (js ''books''))) =
     ([novel, bread], 200, Listing 1 [novel]) \<and>
   listProducts mongo_up [novel, bread] (Some (JStr (js ''other''))) =
     ([novel, bread], 200, Listing 0 []) \<and>
   isBlank (js '' '') \<and> listItems True [bolt] (Some (js '' '')) = Inr (200, [bolt]) \<and>
   \<not> isBlank (js ''B'') \<and> listItems True [bolt] (Some (js ''B'')) = Inr (200, []) \<and>
   listItems True [bolt] (Some (js ''A'')) = Inr (200, [bolt])"
proof -
  have 1: "connected mongo_up" by (simp add: mongo_up_def)
  have 2: "js ''books'' \<noteq> []" and nf: "js ''other'' \<noteq> []" by (simp_all add: js_def)
  have tb: "trim (js ''books'') = js ''books''" by (simp add: trim_def js_def is_ws_def)
  have tf: "trim (js ''other'') = js ''other''" by (simp add: trim_def js_def is_ws_def)
  have ne: "js ''books'' \<noteq> js ''other''" "js ''food'' \<noteq> js ''other''"
           "js ''food'' \<noteq> js ''books''"
    by (simp_all add: js_def)
  have 3: "isBlank (js '' '')" by (simp add: isBlank_def isWhitespace_def js_def)
  have 4: "\<not> isBlank (js ''B'')" and nb: "\<not> isBlank (js ''A'')"
    by (simp_all add: isBlank_def isWhitespace_def js_def)
  have ab: "js ''A'' \<noteq> js ''B''" by (simp add: js_def)
  note a = list_filter [OF 1 TrueI, of "[novel, bread]" "js ''books''" "[bolt]" "js '' ''"]
  note b = list_filter [OF 1 TrueI, of "[novel, bread]" "js ''other''" "[bolt]" "js ''B''"]
  note c = list_filter [OF 1 TrueI, of "[novel, bread]" "js ''other''" "[bolt]" "js ''A''"]
  from a 2 have 5: "listProducts mongo_up [novel, bread] (Some (JStr (js ''books''))) =
                      ([novel, bread], 200, Listing 1 [novel])"
    using ne by (simp add: tb novel_def bread_def)
  from b nf have 6: "listProducts mongo_up [novel, bread] (Some (JStr (js ''other''))) =
                      ([novel, bread], 200, Listing 0 [])"
    using ne by (simp add: tf novel_def bread_def)
  from a 3 have 7: "listItems True [bolt] (Some (js '' '')) = Inr (200, [bolt])" by blast
  from b 4 have 8: "listItems True [bolt] (Some (js ''B'')) = Inr (200, [])"
    using ab by (simp add: bolt_def)
  from c nb have 9: "listItems True [bolt] (Some (js ''A'')) = Inr (200, [bolt])"
    by (simp add: bolt_def)
  show ?thesis
    by (intro conjI) (rule 1, rule TrueI, rule 2, rule 5, rule 6, rule 3, rule 7, rule 4, rule 8,
                      rule 9)
qed

text \<open>
  C6 as stated fails: with the empty filter value the product list returns a record
  whose category is not the empty string.
\<close>

theorem list_filter_counterexample:
  "listProducts mongo_up [novel] (Some (JStr [])) = ([novel], 200, Listing 1 [novel]) \<and>
   category novel \<noteq> []"
  by (simp add: listProducts_def find_def mongo_up_def novel_def js_def)

text \<open>
  A filter value that is not a string is no part of that statement. The handler
  passes it on when it is truthy, as every array and every object is, and the list is
  then what Mongoose selects by the condition it reads from the value, or 500 when
  Mongoose rejects the value.
\<close>

lemma list_other_values:
  assumes "connected m" and "truthy (Some q)" and "typeof (Some q) \<noteq> ''string''"
  shows "(cast_filter m q = Inr selects \<longrightarrow>
            listProducts m db (Some q) =
              (db, 200, Listing (length (filter (\<lambda>p. selects (category p)) db))
                                (filter (\<lambda>p. selects (category p)) db))) \<and>
         (cast_filter m q = Inl err \<longrightarrow>
            listProducts m db (Some q) =
              (db, 500, Error (js ''Server error while fetching products'')))"
  using assms by (cases q) (simp_all add: listProducts_def find_def)

text \<open>
  In the examples' environment the repeated parameter \<open>?category=books&category=food\<close>
  lists the records of both categories, and \<open>?category[$ne]=books\<close> those of every
  category but \<open>books\<close>.
\<close>

lemma list_repeated_parameter:
  "listProducts mongo_up [novel, bread] (Some (JArr [JStr (js ''books''), JStr (js ''food'')])) =
     ([novel, bread], 200, Listing 2 [novel, bread])"
proof -
  have "trim (js ''books'') = js ''books''" "trim (js ''food'') = js ''food''"
    by (simp_all add: trim_def js_def is_ws_def)
  then show ?thesis
    by (simp add: listProducts_def find_def mongo_up_def in_or_ne_def novel_def bread_def)
qed

lemma list_bracketed_parameter:
  "listProducts mongo_up [novel, bread] (Some (JObj [(js ''$ne'', JStr (js ''books''))])) =
     ([novel, bread], 200, Listing 1 [bread])"
proof -
  have "trim (js ''books'') = js ''books''" by (simp add: trim_def js_def is_ws_def)
  moreover have "js ''food'' \<noteq> js ''books''" by (simp add: js_def)
  ultimately show ?thesis
    by (simp add: listProducts_def find_def mongo_up_def in_or_ne_def novel_def bread_def)
qed

section \<open>Health\<close>

text \<open>
  C5. The health route answers 200 with the body fields \<open>status\<close>, \<open>database\<close> and
  \<open>timestamp\<close> when the connection is up (\<open>readyState\<close> is 1), and 500 with the
  status \<open>error\<close> and the database reported \<open>unavailable\<close> in every other state;
  no other outcome exists.
\<close>

theorem health_outcomes:
  "(readyState = 1 \<longrightarrow>
      health readyState t =
        (200, [(''status'', ''ok''), (''database'', ''ok''), (''timestamp'', t)])) \<and>
   (readyState \<noteq> 1 \<longrightarrow>
      health readyState t =
        (500, [(''status'', ''error''), (''database'', ''unavailable''), (''timestamp'', t)])) \<and>
   map fst (snd (health readyState t)) = [''status'', ''database'', ''timestamp''] \<and>
   fst (health readyState t) \<in> {200, 500}"
  by (simp add: health_def)

theorem health_outcomes_witness:
  "health 1 ''2026-02-27T12:00:00.000Z'' =
     (200, [(''status'', ''ok''), (''database'', ''ok''),
            (''timestamp'', ''2026-02-27T12:00:00.000Z'')]) \<and>
   (0::nat) \<noteq> 1 \<and>
   health 0 ''2026-02-27T12:00:00.000Z'' =
     (500, [(''status'', ''error''), (''database'', ''unavailable''),
            (''timestamp'', ''2026-02-27T12:00:00.000Z'')])"
proof -
  note a = health_outcomes [of 1 "''2026-02-27T12:00:00.000Z''"]
  note b = health_outcomes [of 0 "''2026-02-27T12:00:00.000Z''"]
  from a have 1: "health 1 ''2026-02-27T12:00:00.000Z'' =
     (200, [(''status'', ''ok''), (''database'', ''ok''),
            (''timestamp'', ''2026-02-27T12:00:00.000Z'')])" by blast
  have 2: "(0::nat) \<noteq> 1" by simp
  from b 2 have 3: "health 0 ''2026-02-27T12:00:00.000Z'' =
     (500, [(''status'', ''error''), (''database'', ''unavailable''),
            (''timestamp'', ''2026-02-27T12:00:00.000Z'')])" by blast
  show ?thesis by (intro conjI) (rule 1, rule 2, rule 3)
qed

section \<open>The search of the pattern against the reading of it\<close>

lemma first_some_Some: "first_some xs = Some y \<Longrightarrow> Some y \<in> set xs"
  by (induction xs rule: first_some.induct) auto

lemma first_some_None: "first_some xs = None \<longleftrightarrow> (\<forall>x\<in>set xs. x = None)"
  by (induction xs rule: first_some.induct) auto

lemma take_takeWhile: "k \<le> length (takeWhile P s) \<Longrightarrow> take k s = take k (takeWhile P s)"
proof -
  assume k: "k \<le> length (takeWhile P s)"
  have "take k s = take k (takeWhile P s @ dropWhile P s)" by simp
  also have "\<dots> = take k (takeWhile P s)" using k by (simp only: take_append) simp
  finally show ?thesis .
qed

lemma take_slash_free:
  assumes "k \<le> length (takeWhile (\<lambda>c. c \<noteq> CHR ''/'') s)"
  shows "CHR ''/'' \<notin> set (take k s)"
proof
  assume "CHR ''/'' \<in> set (take k s)"
  then have "CHR ''/'' \<in> set (take k (takeWhile (\<lambda>c. c \<noteq> CHR ''/'') s))"
    using take_takeWhile [OF assms] by simp
  then have "CHR ''/'' \<in> set (takeWhile (\<lambda>c. c \<noteq> CHR ''/'') s)"
    by (rule in_set_takeD)
  then show False by (auto dest: set_takeWhileD)
qed

lemma pmatch_covers:
  "pmatch ps s = Some caps \<Longrightarrow> CHR 0x0A \<notin> set s \<Longrightarrow> covers ps s caps"
proof (induction ps arbitrary: s caps)
  case Nil
  then show ?case by (auto split: if_splits intro: covers.intros)
next
  case (Cons p ps)
  show ?case
  proof (cases p)
    case (PChar c)
    with Cons.prems obtain ds where s: "s = c # ds" and m: "pmatch ps ds = Some caps"
      by (auto split: list.splits if_splits)
    from Cons.prems(2) s have "CHR 0x0A \<notin> set ds" by simp
    with m have "covers ps ds caps" by (rule Cons.IH)
    then show ?thesis unfolding PChar s by (rule covers_char)
  next
    case (PGroup n)
    let ?longest = "length (takeWhile (\<lambda>c. c \<noteq> CHR ''/'') s)"
    let ?attempt = "\<lambda>k. map_option (\<lambda>caps. (n, take k s) # caps) (pmatch ps (drop k s))"
    from Cons.prems(1) have "first_some (map ?attempt (rev [1..<Suc ?longest])) = Some caps"
      by (simp add: PGroup Let_def)
    then have "Some caps \<in> set (map ?attempt (rev [1..<Suc ?longest]))"
      by (rule first_some_Some)
    then have "Some caps \<in> ?attempt ` set (rev [1..<Suc ?longest])"
      by (simp only: set_map)
    then obtain k where kin: "k \<in> set (rev [1..<Suc ?longest])" and t: "Some caps = ?attempt k"
      by (rule imageE)
    from kin have k: "1 \<le> k" "k \<le> ?longest" by auto
    from t obtain caps' where m: "pmatch ps (drop k s) = Some caps'"
      and caps: "caps = (n, take k s) # caps'"
      by (cases "pmatch ps (drop k s)") auto
    have "CHR 0x0A \<notin> set (drop k s)" using Cons.prems(2) by (auto dest: in_set_dropD)
    with m have c: "covers ps (drop k s) caps'" by (rule Cons.IH)
    have "?longest \<le> length s" by (rule length_takeWhile_le)
    with k have ne: "take k s \<noteq> []" by auto
    have sf: "CHR ''/'' \<notin> set (take k s)" using k(2) by (rule take_slash_free)
    have "covers (PGroup n # ps) (take k s @ drop k s) ((n, take k s) # caps')"
      using ne sf c by (rule covers_group)
    then show ?thesis by (simp add: PGroup caps)
  qed
qed

lemma covers_pmatch:
  "covers ps s caps \<Longrightarrow> \<exists>caps'. pmatch ps s = Some caps'"
proof (induction rule: covers.induct)
  case covers_end
  then show ?case by simp
next
  case (covers_char ps s caps c)
  then show ?case by simp
next
  case (covers_group v ps s caps n)
  let ?s = "v @ s"
  let ?longest = "length (takeWhile (\<lambda>c. c \<noteq> CHR ''/'') ?s)"
  let ?attempt = "\<lambda>k. map_option (\<lambda>caps. (n, take k ?s) # caps) (pmatch ps (drop k ?s))"
  from covers_group.IH obtain c where c: "pmatch ps s = Some c" by blast
  have "takeWhile (\<lambda>c. c \<noteq> CHR ''/'') ?s = v @ takeWhile (\<lambda>c. c \<noteq> CHR ''/'') s"
    using covers_group.hyps(2) by (intro takeWhile_append2) auto
  then have le: "length v \<le> ?longest" by simp
  have ge: "1 \<le> length v" using covers_group.hyps(1) by (cases v) auto
  have "?attempt (length v) = Some ((n, v) # c)" using c by simp
  moreover have "length v \<in> set (rev [1..<Suc ?longest])" using le ge by auto
  ultimately have "Some ((n, v) # c) \<in> ?attempt ` set (rev [1..<Suc ?longest])"
    by (rule image_eqI [OF sym])
  then have mem: "Some ((n, v) # c) \<in> set (map ?attempt (rev [1..<Suc ?longest]))"
    by (simp only: set_map)
  have "first_some (map ?attempt (rev [1..<Suc ?longest])) \<noteq> None"
  proof
    assume "first_some (map ?attempt (rev [1..<Suc ?longest])) = None"
    then have "\<forall>x\<in>set (map ?attempt (rev [1..<Suc ?longest])). x = None"
      by (simp only: first_some_None)
    with mem show False by blast
  qed
  then obtain r where "first_some (map ?attempt (rev [1..<Suc ?longest])) = Some r"
    by (cases "first_some (map ?attempt (rev [1..<Suc ?longest]))") auto
  then have "pmatch (PGroup n # ps) ?s = Some r" by (simp add: Let_def)
  then show ?case by blast
qed

section \<open>Dispatch\<close>


lemma preg_match_answers:
  assumes "modelled (pattern r)" "CHR 0x0A \<notin> set uri" "http_method r = strtoupper m"
  shows "(preg_match (pattern r) uri = NoMatch \<longrightarrow> \<not> answers r m uri) \<and>
         (\<forall>caps. preg_match (pattern r) uri = Match caps \<longrightarrow>
            answers r m uri \<and> covers (pattern r) uri caps) \<and>
         preg_match (pattern r) uri \<noteq> Unmodelled"
proof (cases "pmatch (pattern r) uri")
  case None
  have "\<not> (\<exists>caps. covers (pattern r) uri caps)"
  proof
    assume "\<exists>caps. covers (pattern r) uri caps"
    then obtain caps where "covers (pattern r) uri caps" ..
    then have "\<exists>caps'. pmatch (pattern r) uri = Some caps'" by (rule covers_pmatch)
    with None show False by simp
  qed
  then show ?thesis using assms(1) None by (simp add: preg_match_def answers_def)
next
  case (Some caps)
  then have "covers (pattern r) uri caps" using assms(2) by (rule pmatch_covers)
  then show ?thesis using assms(1,3) Some by (auto simp: preg_match_def answers_def)
qed

lemma routes_loop_none:
  assumes "\<forall>r\<in>set rs. modelled (pattern r)" "CHR 0x0A \<notin> set uri"
      and "\<forall>r\<in>set rs. \<not> answers r m uri"
  shows "routes_loop rs m uri = None"
  using assms
proof (induction rs)
  case Nil
  then show ?case by simp
next
  case (Cons r rs)
  have ih: "routes_loop rs m uri = None" using Cons by simp
  show ?case
  proof (cases "http_method r = strtoupper m")
    case False
    then show ?thesis using ih by simp
  next
    case True
    have "modelled (pattern r)" using Cons.prems(1) by simp
    from preg_match_answers [OF this Cons.prems(2) True]
    have "preg_match (pattern r) uri = NoMatch"
      using Cons.prems(3) by (cases "preg_match (pattern r) uri") auto
    then show ?thesis using True ih by simp
  qed
qed

lemma routes_loop_first:
  assumes "\<forall>r\<in>set (pre @ r # post). modelled (pattern r)" "CHR 0x0A \<notin> set uri"
      and "\<forall>q\<in>set pre. \<not> answers q m uri" and "answers r m uri"
  shows "\<exists>caps. routes_loop (pre @ r # post) m uri = Some (Invoked (handler r) caps) \<and>
               covers (pattern r) uri caps"
  using assms
proof (induction pre)
  case Nil
  have m: "http_method r = strtoupper m" using Nil.prems(4) by (simp add: answers_def)
  have "modelled (pattern r)" using Nil.prems(1) by simp
  from preg_match_answers [OF this Nil.prems(2) m] Nil.prems(4)
  obtain caps where "preg_match (pattern r) uri = Match caps" "covers (pattern r) uri caps"
    by (cases "preg_match (pattern r) uri") auto
  then show ?case using m by simp
next
  case (Cons q pre)
  have ih: "\<exists>caps. routes_loop (pre @ r # post) m uri = Some (Invoked (handler r) caps) \<and>
               covers (pattern r) uri caps"
    using Cons by simp
  show ?case
  proof (cases "http_method q = strtoupper m")
    case False
    then show ?thesis using ih by simp
  next
    case True
    have "modelled (pattern q)" using Cons.prems(1) by simp
    from preg_match_answers [OF this Cons.prems(2) True]
    have "preg_match (pattern q) uri = NoMatch"
      using Cons.prems(3) by (cases "preg_match (pattern q) uri") auto
    then show ?thesis using True ih by simp
  qed
qed

text \<open>
  For every pattern the model covers, not only those of well-formed paths: without
  a route that answers, \<open>dispatch\<close> responds 404; otherwise it invokes the handler of
  the first route that answers, with captures under which the pattern covers the
  subject.
\<close>

lemma dispatch_first_answering_route:
  assumes "\<forall>r\<in>set (register regs). modelled (pattern r)" and "CHR 0x0A \<notin> set uri"
      and "method_override m post_method = Some m'"
  shows "((\<forall>r\<in>set (register regs). \<not> answers r m' uri) \<longrightarrow>
            dispatch (register regs) post_method m uri =
              Responded 404 [(''error'', ''Route not found''), (''path'', uri)]) \<and>
         (\<forall>pre r post. register regs = pre @ r # post \<and> answers r m' uri \<and>
              (\<forall>q\<in>set pre. \<not> answers q m' uri) \<longrightarrow>
            (\<exists>params. dispatch (register regs) post_method m uri = Invoked (handler r) params \<and>
                      covers (pattern r) uri params))"
proof (intro conjI impI allI)
  assume "\<forall>r\<in>set (register regs). \<not> answers r m' uri"
  with assms(1,2) have "routes_loop (register regs) m' uri = None" by (rule routes_loop_none)
  then show "dispatch (register regs) post_method m uri =
       Responded 404 [(''error'', ''Route not found''), (''path'', uri)]"
    using assms(3) by (simp add: dispatch_def)
next
  fix pre r post
  assume a: "register regs = pre @ r # post \<and> answers r m' uri \<and>
              (\<forall>q\<in>set pre. \<not> answers q m' uri)"
  then have "\<forall>r\<in>set (pre @ r # post). modelled (pattern r)" using assms(1) by simp
  from routes_loop_first [OF this assms(2)] a
  obtain caps where "routes_loop (pre @ r # post) m' uri = Some (Invoked (handler r) caps)"
    and c: "covers (pattern r) uri caps" by blast
  then have "dispatch (register regs) post_method m uri = Invoked (handler r) caps"
    using assms(3) a by (simp add: dispatch_def)
  with c show "\<exists>params. dispatch (register regs) post_method m uri = Invoked (handler r) params \<and>
                      covers (pattern r) uri params" by blast
qed

section \<open>The router against the claim's reading\<close>









































end
